theory Spec2Isabelle
  imports Main "HOL-Library.AList" "HOL-Library.Sublist"
begin

section \<open>Data model (app/models.py)\<close>

text \<open>
  Primary keys are Python integers. A naive \<open>datetime\<close> is the tuple of its fields; the
  clock columns \<open>created_at\<close> and \<open>updated_at\<close> are written by the storage layer and are
  read by none of the task routes, so the rows below do not carry them.
\<close>

record datetime =
  dt_year :: nat
  dt_month :: nat
  dt_day :: nat
  dt_hour :: nat
  dt_minute :: nat
  dt_second :: nat
  dt_microsecond :: nat

record user =
  user_id :: int
  email :: string
  hashed_password :: string
  full_name :: "string option"
  user_role :: string
  is_active :: bool

record tag =
  tag_id :: int
  tag_name :: string

text \<open>
  A row of \<open>tasks\<close>. The primary key \<open>Task.id\<close> is the key under which the row is stored
  (see \<open>task_rows\<close> below), so a task object is a pair of its id and its row. The two
  many-to-many relationships hold the linked \<open>Tag\<close> and \<open>User\<close> objects in list order.
\<close>

record task =
  title :: string
  description :: "string option"
  status :: string
  priority :: string
  due_date :: "datetime option"
  created_by_id :: int
  assignee_id :: "int option"
  parent_id :: "int option"
  tags :: "tag list"
  collaborators :: "user list"

record task_dependency =
  dep_task_id :: int
  dep_depends_on_id :: int

record task_event =
  ev_task_id :: int
  ev_user_id :: "int option"
  event_type :: string
  ev_field :: "string option"
  old_value :: "string option"
  new_value :: "string option"

text \<open>
  The tables as the session sees them. \<open>task_rows\<close> is keyed by the primary key; a query
  \<open>filter(Task.id == i).first()\<close> is \<open>map_of (task_rows s) i\<close>. Rows of \<open>task_dependencies\<close>
  and \<open>task_events\<close> are kept in insertion order.
\<close>

record store =
  user_rows :: "user list"
  tag_rows :: "tag list"
  task_rows :: "(int \<times> task) list"
  dependency_rows :: "task_dependency list"
  event_rows :: "task_event list"

text \<open>
  The SQLAlchemy session \<open>db\<close>: the state the request works on, and the snapshots that
  \<open>db.commit()\<close> has made durable, oldest first. A state is a committed state exactly when
  it occurs in \<open>commit_log\<close>.
\<close>

record db =
  session_state :: store
  commit_log :: "store list"

definition db_commit :: "db \<Rightarrow> db" where
  "db_commit d = d\<lparr>commit_log := commit_log d @ [session_state d]\<rparr>"

text \<open>
  \<open>db.refresh(task)\<close> reloads a task object from its row. The routes refresh only objects
  whose row they have just written; an object without a row, for which SQLAlchemy would
  raise, is left as it is.
\<close>

definition db_refresh :: "store \<Rightarrow> int \<times> task \<Rightarrow> int \<times> task" where
  "db_refresh s obj =
     (case map_of (task_rows s) (fst obj) of None \<Rightarrow> obj | Some t \<Rightarrow> (fst obj, t))"

text \<open>
  The links of a task to its tags are the rows of \<open>task_tags\<close>, whose primary key is
  \<open>(task_id, tag_id)\<close>. When \<open>db.commit()\<close> flushes a task whose \<open>tags\<close> were loaded as
  \<open>original\<close> and are now \<open>current\<close>, it inserts one row for every entry of \<open>current\<close> that
  is not in \<open>original\<close>, twice for an entry that is there twice, and deletes the rows of
  the entries of \<open>original\<close> that are gone. Two equal rows violate the primary key and the
  commit raises \<open>IntegrityError\<close>. After a commit that succeeds the task has the rows that
  stayed and the rows that were inserted, each once.
\<close>

definition new_links :: "tag list \<Rightarrow> tag list \<Rightarrow> tag list" where
  "new_links original current = filter (\<lambda>g. g \<notin> set original) current"

definition stored_links :: "tag list \<Rightarrow> tag list \<Rightarrow> tag list" where
  "stored_links original current =
     filter (\<lambda>g. g \<in> set current) original @ new_links original current"

definition flush_task_tags :: "tag list \<Rightarrow> int \<Rightarrow> store \<Rightarrow> store option" where
  "flush_task_tags original tid s =
     (case map_of (task_rows s) tid of
        None \<Rightarrow> Some s
      | Some t \<Rightarrow>
          if distinct (new_links original (tags t))
          then Some (s\<lparr>task_rows :=
                       AList.update tid (t\<lparr>tags := stored_links original (tags t)\<rparr>) (task_rows s)\<rparr>)
          else None)"

text \<open>
  Primary keys are handed out by the storage engine; the model takes one more than the
  largest key in the table.
\<close>

definition next_id :: "int list \<Rightarrow> int" where
  "next_id ks = fold max ks 0 + 1"

text \<open>The authenticated caller \<open>current_user\<close>: the routes read only its id and role.\<close>

record actor =
  actor_id :: int
  actor_role :: string

text \<open>
  What a route can raise: an HTTPException with status 400, 403 or 404, and the
  \<open>IntegrityError\<close> of a constraint of models.py that \<open>db.commit()\<close> lets through. When
  \<open>db.commit()\<close> raises, nothing of the request is stored.
\<close>

datatype error = Validation | Forbidden | Not_found | Integrity_error

section \<open>Schemas (app/schemas.py)\<close>

text \<open>
  A member of a JSON request body is left out, is \<open>null\<close>, or carries a value. Every field
  of \<open>TaskBase\<close> is \<open>Optional[...] = None\<close>: a member left out takes the default \<open>None\<close>,
  and \<open>null\<close> validates to \<open>None\<close> as well.
\<close>

datatype 'a json_member = Absent | Null | Present 'a

fun optional_field :: "'a json_member \<Rightarrow> 'a option" where
  "optional_field Absent = None"
| "optional_field Null = None"
| "optional_field (Present v) = Some v"

record task_update_body =
  body_title :: "string json_member"
  body_description :: "string json_member"
  body_status :: "string json_member"
  body_priority :: "string json_member"
  body_due_date :: "datetime json_member"
  body_assignee_id :: "int json_member"
  body_parent_id :: "int json_member"
  body_tag_names :: "string list json_member"
  body_collaborator_ids :: "int list json_member"

record task_update =
  upd_title :: "string option"
  upd_description :: "string option"
  upd_status :: "string option"
  upd_priority :: "string option"
  upd_due_date :: "datetime option"
  upd_assignee_id :: "int option"
  upd_parent_id :: "int option"
  upd_tag_names :: "string list option"
  upd_collaborator_ids :: "int list option"

text \<open>Validation of a request body against \<open>TaskUpdate\<close>: the fields are plain \<open>str\<close>,
  \<open>datetime\<close>, \<open>int\<close> and lists, with no further constraint.\<close>

definition TaskUpdate :: "task_update_body \<Rightarrow> task_update" where
  "TaskUpdate b =
     \<lparr>upd_title = optional_field (body_title b),
      upd_description = optional_field (body_description b),
      upd_status = optional_field (body_status b),
      upd_priority = optional_field (body_priority b),
      upd_due_date = optional_field (body_due_date b),
      upd_assignee_id = optional_field (body_assignee_id b),
      upd_parent_id = optional_field (body_parent_id b),
      upd_tag_names = optional_field (body_tag_names b),
      upd_collaborator_ids = optional_field (body_collaborator_ids b)\<rparr>"

record task_create =
  new_title :: string
  new_description :: "string option"
  new_status :: "string option"
  new_priority :: "string option"
  new_due_date :: "datetime option"
  new_assignee_id :: "int option"
  new_parent_id :: "int option"
  new_tag_names :: "string list option"
  new_collaborator_ids :: "int list option"

record bulk_task_update_item =
  item_id :: int
  item_status :: "string option"
  item_priority :: "string option"
  item_assignee_id :: "int option"

text \<open>\<open>schemas.TaskUpdate(**item.model_dump())\<close>: the three fields of the item are taken
  over, the key \<open>id\<close> is not a field of \<open>TaskUpdate\<close>, and every other field defaults.\<close>

definition item_task_update :: "bulk_task_update_item \<Rightarrow> task_update" where
  "item_task_update item =
     \<lparr>upd_title = None, upd_description = None,
      upd_status = item_status item, upd_priority = item_priority item,
      upd_due_date = None, upd_assignee_id = item_assignee_id item,
      upd_parent_id = None, upd_tag_names = None, upd_collaborator_ids = None\<rparr>"

section \<open>Python's \<open>str\<close> and \<open>join\<close>\<close>

fun str_nat :: "nat \<Rightarrow> string" where
  "str_nat n =
     (if n < 10 then [char_of (48 + n)]
      else str_nat (n div 10) @ [char_of (48 + n mod 10)])"

definition str_int :: "int \<Rightarrow> string" where
  "str_int i = (if i < 0 then CHR ''-'' # str_nat (nat (- i)) else str_nat (nat i))"

definition zfill :: "nat \<Rightarrow> string \<Rightarrow> string" where
  "zfill w s = replicate (w - length s) CHR ''0'' @ s"

text \<open>\<open>str\<close> of a naive datetime is \<open>isoformat(sep=' ')\<close>; the fraction is printed only
  when the microsecond is not zero.\<close>

definition str_datetime :: "datetime \<Rightarrow> string" where
  "str_datetime t =
     zfill 4 (str_nat (dt_year t)) @ ''-'' @ zfill 2 (str_nat (dt_month t)) @ ''-''
       @ zfill 2 (str_nat (dt_day t)) @ '' '' @ zfill 2 (str_nat (dt_hour t)) @ '':''
       @ zfill 2 (str_nat (dt_minute t)) @ '':'' @ zfill 2 (str_nat (dt_second t))
       @ (if dt_microsecond t = 0 then [] else ''.'' @ zfill 6 (str_nat (dt_microsecond t)))"

fun join_comma :: "string list \<Rightarrow> string" where
  "join_comma [] = []"
| "join_comma [x] = x"
| "join_comma (x # y # ys) = x @ '','' @ join_comma (y # ys)"

text \<open>The values that pass through \<open>changed_fields\<close>.\<close>

datatype pyval = PStr string | PInt int | PDatetime datetime

fun py_str :: "pyval \<Rightarrow> string" where
  "py_str (PStr s) = s"
| "py_str (PInt i) = str_int i"
| "py_str (PDatetime t) = str_datetime t"

type_synonym change = "string \<times> pyval option \<times> pyval option"

section \<open>The task routes (app/routers/tasks.py)\<close>

subsection \<open>\<open>_apply_task_updates\<close>\<close>

text \<open>
  The local function \<open>set_attr\<close>. \<open>rd\<close> is \<open>getattr(task, field)\<close> (\<open>None\<close> for a null
  column), \<open>wr\<close> is \<open>setattr\<close>, and \<open>box\<close> tags the value with its Python type. A \<open>None\<close>
  value leaves the task and \<open>changed_fields\<close> as they are.
\<close>

definition set_attr ::
  "string \<Rightarrow> (task \<Rightarrow> 'a option) \<Rightarrow> ('a \<Rightarrow> task \<Rightarrow> task) \<Rightarrow> ('a \<Rightarrow> pyval) \<Rightarrow> 'a option
     \<Rightarrow> task \<times> change list \<Rightarrow> task \<times> change list" where
  "set_attr fld rd wr box val tc =
     (case tc of (t, changed_fields) \<Rightarrow>
        (let old = rd t in
         case val of
           None \<Rightarrow> (t, changed_fields)
         | Some v \<Rightarrow>
             if Some v \<noteq> old
             then (wr v t, changed_fields @ [(fld, map_option box old, Some (box v))])
             else (t, changed_fields)))"

text \<open>The seven calls of \<open>set_attr\<close>, in the order of the source.\<close>

definition apply_scalar_fields :: "task_update \<Rightarrow> task \<Rightarrow> task \<times> change list" where
  "apply_scalar_fields data t =
     (let tc = (t, []);
          tc = set_attr ''title'' (\<lambda>t. Some (title t)) (\<lambda>v t. t\<lparr>title := v\<rparr>) PStr (upd_title data) tc;
          tc = set_attr ''description'' description (\<lambda>v t. t\<lparr>description := Some v\<rparr>) PStr
                 (upd_description data) tc;
          tc = set_attr ''status'' (\<lambda>t. Some (status t)) (\<lambda>v t. t\<lparr>status := v\<rparr>) PStr (upd_status data) tc;
          tc = set_attr ''priority'' (\<lambda>t. Some (priority t)) (\<lambda>v t. t\<lparr>priority := v\<rparr>) PStr
                 (upd_priority data) tc;
          tc = set_attr ''due_date'' due_date (\<lambda>v t. t\<lparr>due_date := Some v\<rparr>) PDatetime
                 (upd_due_date data) tc;
          tc = set_attr ''assignee_id'' assignee_id (\<lambda>v t. t\<lparr>assignee_id := Some v\<rparr>) PInt
                 (upd_assignee_id data) tc;
          tc = set_attr ''parent_id'' parent_id (\<lambda>v t. t\<lparr>parent_id := Some v\<rparr>) PInt
                 (upd_parent_id data) tc
      in tc)"

text \<open>
  The loop over tag names, shared with \<open>create_task\<close>:
  \<open>tag = db.query(Tag).filter(Tag.name == name).first()\<close>, a new \<open>Tag\<close> added to the session
  when there is none, then \<open>task.tags.append(tag)\<close>. The session flushes before each query
  (SQLAlchemy's default \<open>autoflush\<close>), so a tag added in one iteration is found by the next.
  \<open>Tag.name == name\<close> is equality of the two strings, as under a binary collation.
  The list built here is the collection \<open>task.tags\<close> of the session, in which a name given
  twice appends the same tag twice; the rows of \<open>task_tags\<close> are written by the commit
  (\<open>flush_task_tags\<close>).
\<close>

fun link_tags :: "string list \<Rightarrow> store \<times> tag list \<Rightarrow> store \<times> tag list" where
  "link_tags [] acc = acc"
| "link_tags (name # names) (s, ts) =
     (case find (\<lambda>g. tag_name g = name) (tag_rows s) of
        Some g \<Rightarrow> link_tags names (s, ts @ [g])
      | None \<Rightarrow>
          (let g = \<lparr>tag_id = next_id (map tag_id (tag_rows s)), tag_name = name\<rparr>
           in link_tags names (s\<lparr>tag_rows := tag_rows s @ [g]\<rparr>, ts @ [g])))"

text \<open>\<open>db.query(User).filter(User.id.in_(ids)).all()\<close>: every user with one of the ids,
  once.\<close>

definition users_with_ids :: "store \<Rightarrow> int list \<Rightarrow> user list" where
  "users_with_ids s ids = filter (\<lambda>u. user_id u \<in> set ids) (user_rows s)"

text \<open>The block \<open>if data.tag_names is not None\<close>.\<close>

definition apply_tag_names ::
  "string list option \<Rightarrow> store \<times> task \<times> change list \<Rightarrow> store \<times> task \<times> change list" where
  "apply_tag_names tag_names stc =
     (case stc of (s, t, changed_fields) \<Rightarrow>
        (case tag_names of
           None \<Rightarrow> (s, t, changed_fields)
         | Some names \<Rightarrow>
             (case link_tags names (s, []) of (s', ts) \<Rightarrow>
                (s', t\<lparr>tags := ts\<rparr>,
                 changed_fields @ [(''tags'', None, Some (PStr (join_comma names)))]))))"

text \<open>The block \<open>if data.collaborator_ids is not None\<close>.\<close>

definition apply_collaborator_ids ::
  "int list option \<Rightarrow> store \<times> task \<times> change list \<Rightarrow> store \<times> task \<times> change list" where
  "apply_collaborator_ids collaborator_ids stc =
     (case stc of (s, t, changed_fields) \<Rightarrow>
        (case collaborator_ids of
           None \<Rightarrow> (s, t, changed_fields)
         | Some ids \<Rightarrow>
             (s, t\<lparr>collaborators := (if ids \<noteq> [] then users_with_ids s ids else [])\<rparr>,
              changed_fields
                @ [(''collaborators'', None, Some (PStr (join_comma (map str_int ids))))])))"

text \<open>The final loop: one \<open>update\<close> event for each entry of \<open>changed_fields\<close>.\<close>

definition update_event :: "int \<Rightarrow> int \<Rightarrow> change \<Rightarrow> task_event" where
  "update_event tid uid c =
     (case c of (fld, old, new) \<Rightarrow>
        \<lparr>ev_task_id = tid, ev_user_id = Some uid, event_type = ''update'',
         ev_field = Some fld, old_value = map_option py_str old,
         new_value = map_option py_str new\<rparr>)"

text \<open>
  The task, the tables and \<open>changed_fields\<close> after the three blocks, before any event is
  added: \<open>changed_fields\<close> is the change list of the call.
\<close>

definition task_changes ::
  "int \<times> task \<Rightarrow> task_update \<Rightarrow> store \<Rightarrow> store \<times> task \<times> change list" where
  "task_changes it data s =
     (case apply_scalar_fields data (snd it) of (t1, changed1) \<Rightarrow>
        apply_collaborator_ids (upd_collaborator_ids data)
          (apply_tag_names (upd_tag_names data) (s, t1, changed1)))"

text \<open>
  \<open>_apply_task_updates(task, data, db, user_id)\<close>. The task object is mutated in place:
  its row is written back under its key.
\<close>

definition apply_task_updates :: "int \<times> task \<Rightarrow> task_update \<Rightarrow> store \<Rightarrow> int \<Rightarrow> store" where
  "apply_task_updates it data s uid =
     (case task_changes it data s of (s', t', changed_fields) \<Rightarrow>
        s'\<lparr>task_rows := AList.update (fst it) t' (task_rows s'),
           event_rows := event_rows s' @ map (update_event (fst it) uid) changed_fields\<rparr>)"

subsection \<open>\<open>update_task\<close>\<close>

text \<open>
  \<open>db.commit()\<close> writes the links of the task that was loaded at the start of the request
  and either raises or makes the state durable; \<open>db.refresh(task)\<close> then reloads the task.
\<close>

definition update_task ::
  "int \<Rightarrow> task_update \<Rightarrow> db \<Rightarrow> actor \<Rightarrow> db \<times> (error + int \<times> task)" where
  "update_task tid task_in d current_user =
     (case map_of (task_rows (session_state d)) tid of
        None \<Rightarrow> (d, Inl Not_found)
      | Some t \<Rightarrow>
          if actor_role current_user \<notin> set [''admin'', ''manager'']
             \<and> Some (actor_id current_user) \<notin> set [Some (created_by_id t), assignee_id t]
          then (d, Inl Forbidden)
          else
            (let s' = apply_task_updates (tid, t) task_in (session_state d) (actor_id current_user)
             in case flush_task_tags (tags t) tid s' of
                  None \<Rightarrow> (d, Inl Integrity_error)
                | Some s'' \<Rightarrow>
                    (let d' = db_commit (d\<lparr>session_state := s''\<rparr>)
                     in (d', Inr (db_refresh s'' (tid, t))))))"

subsection \<open>\<open>create_task\<close>\<close>

text \<open>\<open>x or default\<close> on an optional string: \<open>None\<close> and the empty string are falsy.\<close>

definition py_or :: "string option \<Rightarrow> string \<Rightarrow> string" where
  "py_or x dflt = (case x of None \<Rightarrow> dflt | Some v \<Rightarrow> if v = [] then dflt else v)"

definition create_event :: "int \<Rightarrow> int \<Rightarrow> task_event" where
  "create_event tid uid =
     \<lparr>ev_task_id = tid, ev_user_id = Some uid, event_type = ''create'',
      ev_field = None, old_value = None, new_value = None\<rparr>"

text \<open>
  The task is built, its tags and collaborators are linked, and \<open>db.add(task); db.commit()\<close>
  stores the row under a new primary key, with one row of \<open>task_tags\<close> for each entry of
  \<open>task.tags\<close>; the new task had no link before. Then the \<open>create\<close> event is added and a
  second \<open>db.commit()\<close> follows.
\<close>

definition create_task :: "task_create \<Rightarrow> db \<Rightarrow> actor \<Rightarrow> db \<times> (error + int \<times> task)" where
  "create_task task_in d current_user =
     (let t = \<lparr>title = new_title task_in,
               description = new_description task_in,
               status = py_or (new_status task_in) ''todo'',
               priority = py_or (new_priority task_in) ''medium'',
               due_date = new_due_date task_in,
               created_by_id = actor_id current_user,
               assignee_id = new_assignee_id task_in,
               parent_id = new_parent_id task_in,
               tags = [], collaborators = []\<rparr>;
          s = session_state d;
          st = (case new_tag_names task_in of
                  None \<Rightarrow> (s, t)
                | Some names \<Rightarrow>
                    if names = [] then (s, t)
                    else (case link_tags names (s, tags t) of (s', ts) \<Rightarrow> (s', t\<lparr>tags := ts\<rparr>)));
          s = fst st;
          t = snd st;
          t = (case new_collaborator_ids task_in of
                 None \<Rightarrow> t
               | Some ids \<Rightarrow>
                   if ids = [] then t
                   else t\<lparr>collaborators := collaborators t @ users_with_ids s ids\<rparr>);
          tid = next_id (map fst (task_rows s))
      in if \<not> distinct (new_links [] (tags t)) then (d, Inl Integrity_error)
         else
           (let t = t\<lparr>tags := stored_links [] (tags t)\<rparr>;
                d = db_commit (d\<lparr>session_state := s\<lparr>task_rows := task_rows s @ [(tid, t)]\<rparr>\<rparr>);
                task = db_refresh (session_state d) (tid, t);
                event = create_event tid (actor_id current_user);
                s = session_state d;
                d = db_commit (d\<lparr>session_state := s\<lparr>event_rows := event_rows s @ [event]\<rparr>\<rparr>)
            in (d, Inr task)))"

subsection \<open>\<open>delete_task\<close>\<close>

text \<open>
  \<open>db.delete(task); db.commit()\<close>. The relationships of models.py name no cascade, so the
  flush detaches the rows that refer to the task before it deletes the row: it sets the
  referring column to \<open>NULL\<close>. \<open>Task.parent_id\<close> is nullable, and the subtasks lose their
  parent. \<open>TaskEvent.task_id\<close>, \<open>TaskDependency.task_id\<close> and \<open>TaskDependency.depends_on_id\<close>
  are \<open>nullable=False\<close>: when an event or a dependency refers to the task the commit raises
  \<open>IntegrityError\<close> and nothing is deleted. The row's tag and collaborator links go with
  the row.
\<close>

definition task_is_referenced :: "store \<Rightarrow> int \<Rightarrow> bool" where
  "task_is_referenced s tid \<longleftrightarrow>
     list_ex (\<lambda>e. ev_task_id e = tid) (event_rows s)
     \<or> list_ex (\<lambda>r. dep_task_id r = tid \<or> dep_depends_on_id r = tid) (dependency_rows s)"

definition detach_subtask :: "int \<Rightarrow> int \<times> task \<Rightarrow> int \<times> task" where
  "detach_subtask tid row =
     (if parent_id (snd row) = Some tid then (fst row, (snd row)\<lparr>parent_id := None\<rparr>) else row)"

definition delete_task :: "int \<Rightarrow> db \<Rightarrow> actor \<Rightarrow> db \<times> (error + unit)" where
  "delete_task tid d current_user =
     (case map_of (task_rows (session_state d)) tid of
        None \<Rightarrow> (d, Inl Not_found)
      | Some t \<Rightarrow>
          if actor_role current_user \<notin> set [''admin'', ''manager'']
             \<and> actor_id current_user \<noteq> created_by_id t
          then (d, Inl Forbidden)
          else
            (let s = session_state d
             in if task_is_referenced s tid then (d, Inl Integrity_error)
                else
                  (db_commit
                     (d\<lparr>session_state :=
                          s\<lparr>task_rows := map (detach_subtask tid) (AList.delete tid (task_rows s))\<rparr>\<rparr>),
                   Inr ())))"

subsection \<open>\<open>bulk_update_tasks\<close>\<close>

text \<open>
  \<open>found\<close> are the keys of \<open>tasks_by_id\<close>. The dictionary holds the task objects
  themselves, so the loop reads a task through its key in the current state. Rows are
  never removed inside the loop; the branch for a key without a row only skips.
  \<open>updated\<close> collects the objects; their attributes are reloaded after the commit. The
  patch of an item carries no tag names, so the commit has no link to write.
\<close>

fun bulk_loop ::
  "int list \<Rightarrow> actor \<Rightarrow> bulk_task_update_item list \<Rightarrow> store \<times> (int \<times> task) list
     \<Rightarrow> store \<times> (int \<times> task) list" where
  "bulk_loop found current_user [] acc = acc"
| "bulk_loop found current_user (item # items) (s, updated) =
     (if item_id item \<notin> set found then bulk_loop found current_user items (s, updated)
      else
        (case map_of (task_rows s) (item_id item) of
           None \<Rightarrow> bulk_loop found current_user items (s, updated)
         | Some t \<Rightarrow>
             if actor_role current_user \<notin> set [''admin'', ''manager'']
                \<and> Some (actor_id current_user) \<notin> set [Some (created_by_id t), assignee_id t]
             then bulk_loop found current_user items (s, updated)
             else bulk_loop found current_user items
                    (apply_task_updates (item_id item, t) (item_task_update item) s
                       (actor_id current_user),
                     updated @ [(item_id item, t)])))"

definition bulk_update_tasks ::
  "bulk_task_update_item list \<Rightarrow> db \<Rightarrow> actor \<Rightarrow> db \<times> (int \<times> task) list" where
  "bulk_update_tasks payload_items d current_user =
     (let task_ids = map item_id payload_items;
          found = filter (\<lambda>k. k \<in> set task_ids) (map fst (task_rows (session_state d)));
          su = bulk_loop found current_user payload_items (session_state d, []);
          d' = db_commit (d\<lparr>session_state := fst su\<rparr>)
      in (d', map (db_refresh (fst su)) (snd su)))"

subsection \<open>\<open>add_dependency\<close>\<close>

definition dependency_event :: "int \<Rightarrow> int \<Rightarrow> int \<Rightarrow> task_event" where
  "dependency_event tid uid depends_on_id =
     \<lparr>ev_task_id = tid, ev_user_id = Some uid, event_type = ''add_dependency'',
      ev_field = Some ''depends_on'', old_value = None,
      new_value = Some (str_int depends_on_id)\<rparr>"

text \<open>The result is the \<open>detail\<close> string of the returned dictionary.\<close>

definition add_dependency :: "int \<Rightarrow> int \<Rightarrow> db \<Rightarrow> actor \<Rightarrow> db \<times> (error + string)" where
  "add_dependency tid depends_on_id d current_user =
     (if tid = depends_on_id then (d, Inl Validation)
      else
        (let s = session_state d
         in if map_of (task_rows s) tid = None \<or> map_of (task_rows s) depends_on_id = None
            then (d, Inl Not_found)
            else
              (case find (\<lambda>r. dep_task_id r = tid \<and> dep_depends_on_id r = depends_on_id)
                      (dependency_rows s) of
                 Some dep \<Rightarrow> (d, Inr ''Dependency already exists'')
               | None \<Rightarrow>
                   (let dep = \<lparr>dep_task_id = tid, dep_depends_on_id = depends_on_id\<rparr>;
                        d = db_commit
                              (d\<lparr>session_state := s\<lparr>dependency_rows := dependency_rows s @ [dep]\<rparr>\<rparr>);
                        event = dependency_event tid (actor_id current_user) depends_on_id;
                        s = session_state d;
                        d = db_commit (d\<lparr>session_state := s\<lparr>event_rows := event_rows s @ [event]\<rparr>\<rparr>)
                    in (d, Inr ''Dependency added'')))))"

section \<open>Derived descriptions\<close>

text \<open>
  Closed forms of what \<open>_apply_task_updates\<close> computes, used to state and prove the
  properties: the task after the seven \<open>set_attr\<close> calls, the entries they add to
  \<open>changed_fields\<close>, the entries added by the two relation blocks, and the tag loop as a
  function of the \<open>tags\<close> table alone.
\<close>

definition field_change :: "string \<Rightarrow> pyval option \<Rightarrow> pyval option \<Rightarrow> change list" where
  "field_change fld old val =
     (case val of None \<Rightarrow> [] | Some v \<Rightarrow> if Some v \<noteq> old then [(fld, old, Some v)] else [])"

definition scalar_write :: "task_update \<Rightarrow> task \<Rightarrow> task" where
  "scalar_write data t =
     t\<lparr>title := (case upd_title data of None \<Rightarrow> title t | Some v \<Rightarrow> v),
       description := (case upd_description data of None \<Rightarrow> description t | Some v \<Rightarrow> Some v),
       status := (case upd_status data of None \<Rightarrow> status t | Some v \<Rightarrow> v),
       priority := (case upd_priority data of None \<Rightarrow> priority t | Some v \<Rightarrow> v),
       due_date := (case upd_due_date data of None \<Rightarrow> due_date t | Some v \<Rightarrow> Some v),
       assignee_id := (case upd_assignee_id data of None \<Rightarrow> assignee_id t | Some v \<Rightarrow> Some v),
       parent_id := (case upd_parent_id data of None \<Rightarrow> parent_id t | Some v \<Rightarrow> Some v)\<rparr>"

definition scalar_changes :: "task_update \<Rightarrow> task \<Rightarrow> change list" where
  "scalar_changes data t =
     field_change ''title'' (Some (PStr (title t))) (map_option PStr (upd_title data))
     @ field_change ''description'' (map_option PStr (description t)) (map_option PStr (upd_description data))
     @ field_change ''status'' (Some (PStr (status t))) (map_option PStr (upd_status data))
     @ field_change ''priority'' (Some (PStr (priority t))) (map_option PStr (upd_priority data))
     @ field_change ''due_date'' (map_option PDatetime (due_date t)) (map_option PDatetime (upd_due_date data))
     @ field_change ''assignee_id'' (map_option PInt (assignee_id t)) (map_option PInt (upd_assignee_id data))
     @ field_change ''parent_id'' (map_option PInt (parent_id t)) (map_option PInt (upd_parent_id data))"

definition relation_changes :: "task_update \<Rightarrow> change list" where
  "relation_changes data =
     (case upd_tag_names data of
        None \<Rightarrow> []
      | Some names \<Rightarrow> [(''tags'', None, Some (PStr (join_comma names)))])
     @ (case upd_collaborator_ids data of
          None \<Rightarrow> []
        | Some ids \<Rightarrow> [(''collaborators'', None, Some (PStr (join_comma (map str_int ids))))])"

fun link_rows :: "string list \<Rightarrow> tag list \<times> tag list \<Rightarrow> tag list \<times> tag list" where
  "link_rows [] acc = acc"
| "link_rows (name # names) (rows, ts) =
     (case find (\<lambda>g. tag_name g = name) rows of
        Some g \<Rightarrow> link_rows names (rows, ts @ [g])
      | None \<Rightarrow>
          (let g = \<lparr>tag_id = next_id (map tag_id rows), tag_name = name\<rparr>
           in link_rows names (rows @ [g], ts @ [g])))"

definition synced_tags :: "task_update \<Rightarrow> task \<Rightarrow> tag list \<Rightarrow> tag list \<times> tag list" where
  "synced_tags data t rows =
     (case upd_tag_names data of None \<Rightarrow> (rows, tags t) | Some names \<Rightarrow> link_rows names (rows, []))"

definition synced_collaborators :: "task_update \<Rightarrow> task \<Rightarrow> store \<Rightarrow> user list" where
  "synced_collaborators data t s =
     (case upd_collaborator_ids data of
        None \<Rightarrow> collaborators t
      | Some ids \<Rightarrow> users_with_ids s ids)"

text \<open>The \<open>create\<close> events of a task, and the rows and \<open>add_dependency\<close> events of a
  pair of tasks, in a state of the tables.\<close>

definition create_events :: "store \<Rightarrow> int \<Rightarrow> task_event list" where
  "create_events s tid =
     filter (\<lambda>e. ev_task_id e = tid \<and> event_type e = ''create'') (event_rows s)"

definition dependency_count :: "store \<Rightarrow> int \<Rightarrow> int \<Rightarrow> nat" where
  "dependency_count s a b =
     length (filter (\<lambda>r. dep_task_id r = a \<and> dep_depends_on_id r = b) (dependency_rows s))"

definition dependency_event_count :: "store \<Rightarrow> int \<Rightarrow> int \<Rightarrow> nat" where
  "dependency_event_count s a b =
     length (filter (\<lambda>e. ev_task_id e = a \<and> event_type e = ''add_dependency''
                          \<and> new_value e = Some (str_int b)) (event_rows s))"

text \<open>
  The bulk update as the specification words it (sections 4.6 and 7): the items are taken
  in order; an item for which the single update would end in NotFound or Forbidden is
  skipped; every other item has the effect of that single update on the tables. The result
  is the tables after the last item and the ids of the items that were applied, in order.
  The one commit is left to the caller.
\<close>

fun bulkUpdate_spec :: "actor \<Rightarrow> bulk_task_update_item list \<Rightarrow> store \<Rightarrow> store \<times> int list" where
  "bulkUpdate_spec u [] s = (s, [])"
| "bulkUpdate_spec u (item # items) s =
     (case update_task (item_id item) (item_task_update item)
             \<lparr>session_state = s, commit_log = []\<rparr> u of
        (d1, Inl e) \<Rightarrow> bulkUpdate_spec u items s
      | (d1, Inr r) \<Rightarrow>
          (case bulkUpdate_spec u items (session_state d1) of
             (s', ks) \<Rightarrow> (s', item_id item # ks)))"

text \<open>The test that \<open>update_task\<close> and the loop of \<open>bulk_update_tasks\<close> both make before
  they apply a patch.\<close>

definition update_denied :: "actor \<Rightarrow> task \<Rightarrow> bool" where
  "update_denied u t \<longleftrightarrow>
     actor_role u \<notin> set [''admin'', ''manager'']
     \<and> Some (actor_id u) \<notin> set [Some (created_by_id t), assignee_id t]"

text \<open>The stored tasks of a list of ids, in the order of the list.\<close>

definition read_tasks :: "store \<Rightarrow> int list \<Rightarrow> (int \<times> task) list" where
  "read_tasks s ks = List.map_filter (\<lambda>k. map_option (Pair k) (map_of (task_rows s) k)) ks"

text \<open>
  A patch whose \<open>tag_names\<close>, if it has any, repeat no name; and the task and the tables
  that \<open>update_task\<close> leaves when its commit succeeds.
\<close>

definition tag_names_distinct :: "task_update \<Rightarrow> bool" where
  "tag_names_distinct data =
     (case upd_tag_names data of None \<Rightarrow> True | Some names \<Rightarrow> distinct names)"

definition updated_task :: "task \<Rightarrow> task_update \<Rightarrow> store \<Rightarrow> task" where
  "updated_task t data s =
     (scalar_write data t)
       \<lparr>collaborators := synced_collaborators data t s,
        tags := stored_links (tags t) (snd (synced_tags data t (tag_rows s)))\<rparr>"

definition updated_store :: "int \<Rightarrow> task \<Rightarrow> task_update \<Rightarrow> store \<Rightarrow> int \<Rightarrow> store" where
  "updated_store tid t data s uid =
     (apply_task_updates (tid, t) data s uid)
       \<lparr>task_rows := AList.update tid (updated_task t data s) (task_rows s)\<rparr>"

text \<open>
  The task that \<open>create_task\<close> builds and links before its first commit, and the \<open>tags\<close>
  table at that point.
\<close>

definition new_tag_rows :: "task_create \<Rightarrow> store \<Rightarrow> tag list" where
  "new_tag_rows task_in s =
     (case new_tag_names task_in of
        None \<Rightarrow> tag_rows s
      | Some names \<Rightarrow> fst (link_rows names (tag_rows s, [])))"

definition new_task :: "task_create \<Rightarrow> store \<Rightarrow> actor \<Rightarrow> task" where
  "new_task task_in s u =
     \<lparr>title = new_title task_in,
      description = new_description task_in,
      status = py_or (new_status task_in) ''todo'',
      priority = py_or (new_priority task_in) ''medium'',
      due_date = new_due_date task_in,
      created_by_id = actor_id u,
      assignee_id = new_assignee_id task_in,
      parent_id = new_parent_id task_in,
      tags = (case new_tag_names task_in of
                None \<Rightarrow> []
              | Some names \<Rightarrow> snd (link_rows names (tag_rows s, []))),
      collaborators = (case new_collaborator_ids task_in of
                         None \<Rightarrow> []
                       | Some ids \<Rightarrow> users_with_ids s ids)\<rparr>"

section \<open>Example states\<close>

definition demo_task :: task where
  "demo_task =
     \<lparr>title = ''Ship release'', description = Some ''cut the branch'', status = ''todo'',
      priority = ''medium'', due_date = None, created_by_id = 1, assignee_id = Some 2,
      parent_id = None, tags = [], collaborators = []\<rparr>"

definition demo_store :: store where
  "demo_store =
     \<lparr>user_rows =
        [\<lparr>user_id = 1, email = ''ann@example.org'', hashed_password = ''x'', full_name = None,
          user_role = ''member'', is_active = True\<rparr>,
         \<lparr>user_id = 2, email = ''bob@example.org'', hashed_password = ''y'', full_name = None,
          user_role = ''member'', is_active = True\<rparr>],
      tag_rows = [\<lparr>tag_id = 1, tag_name = ''urgent''\<rparr>],
      task_rows = [(1, demo_task), (2, demo_task\<lparr>title := ''Blocker'', assignee_id := None\<rparr>)],
      dependency_rows = [],
      event_rows = [create_event 1 1, create_event 2 1]\<rparr>"

definition demo_db :: db where
  "demo_db = \<lparr>session_state = demo_store, commit_log = [demo_store]\<rparr>"

definition member_3 :: actor where
  "member_3 = \<lparr>actor_id = 3, actor_role = ''member''\<rparr>"

definition member_2 :: actor where
  "member_2 = \<lparr>actor_id = 2, actor_role = ''member''\<rparr>"

definition member_1 :: actor where
  "member_1 = \<lparr>actor_id = 1, actor_role = ''member''\<rparr>"

definition manager_7 :: actor where
  "manager_7 = \<lparr>actor_id = 7, actor_role = ''manager''\<rparr>"

definition no_update :: task_update where
  "no_update =
     \<lparr>upd_title = None, upd_description = None, upd_status = None, upd_priority = None,
      upd_due_date = None, upd_assignee_id = None, upd_parent_id = None,
      upd_tag_names = None, upd_collaborator_ids = None\<rparr>"

definition null_description :: task_update_body where
  "null_description =
     \<lparr>body_title = Present ''Ship release 2'', body_description = Null, body_status = Absent,
      body_priority = Absent, body_due_date = Absent, body_assignee_id = Null,
      body_parent_id = Absent, body_tag_names = Absent, body_collaborator_ids = Absent\<rparr>"

definition bogus_status :: task_update where
  "bogus_status = no_update\<lparr>upd_title := Some ''Renamed'', upd_status := Some ''bogus'',
                             upd_priority := Some ''urgent!''\<rparr>"

definition retag :: task_update where
  "retag = no_update\<lparr>upd_status := Some ''in_progress'',
                      upd_tag_names := Some [''urgent'', ''release'']\<rparr>"

definition restatus :: task_update where
  "restatus = no_update\<lparr>upd_status := Some ''in_progress'', upd_assignee_id := Some 1\<rparr>"


definition demo_create :: task_create where
  "demo_create =
     \<lparr>new_title = ''Write notes'', new_description = None, new_status = None,
      new_priority = Some '''', new_due_date = None, new_assignee_id = None,
      new_parent_id = Some 1, new_tag_names = Some [''docs''],
      new_collaborator_ids = Some [2]\<rparr>"

definition demo_items :: "bulk_task_update_item list" where
  "demo_items =
     [\<lparr>item_id = 2, item_status = Some ''done'', item_priority = None, item_assignee_id = None\<rparr>,
      \<lparr>item_id = 42, item_status = Some ''done'', item_priority = None, item_assignee_id = None\<rparr>,
      \<lparr>item_id = 1, item_status = Some ''done'', item_priority = Some ''high'',
       item_assignee_id = None\<rparr>]"

definition demo_created :: task where
  "demo_created =
     \<lparr>title = ''Write notes'', description = None, status = ''todo'', priority = ''medium'',
      due_date = None, created_by_id = 1, assignee_id = None, parent_id = Some 1,
      tags = [\<lparr>tag_id = 2, tag_name = ''docs''\<rparr>],
      collaborators =
        [\<lparr>user_id = 2, email = ''bob@example.org'', hashed_password = ''y'', full_name = None,
          user_role = ''member'', is_active = True\<rparr>]\<rparr>"

definition unlogged_db :: db where
  "unlogged_db = \<lparr>session_state = demo_store\<lparr>event_rows := []\<rparr>, commit_log = []\<rparr>"


section \<open>Properties\<close>

subsection \<open>What \<open>_apply_task_updates\<close> computes\<close>

lemma set_attr_eq:
  assumes "inj box" and "\<And>v. rd t = Some v \<Longrightarrow> wr v t = t"
  shows "set_attr fld rd wr box val (t, c) =
           ((case val of None \<Rightarrow> t | Some v \<Rightarrow> wr v t),
            c @ field_change fld (map_option box (rd t)) (map_option box val))"
proof (cases val)
  case None
  then show ?thesis by (simp add: set_attr_def field_change_def)
next
  case (Some v)
  show ?thesis
  proof (cases "rd t = Some v")
    case True
    with Some assms(2) show ?thesis by (simp add: set_attr_def field_change_def)
  next
    case False
    then have "Some (box v) \<noteq> map_option box (rd t)"
      using assms(1) by (cases "rd t") (auto dest: injD)
    moreover from False have "Some v \<noteq> rd t" by auto
    ultimately show ?thesis using Some by (simp add: set_attr_def field_change_def)
  qed
qed

lemma inj_boxes: "inj PStr" "inj PInt" "inj PDatetime"
  by (simp_all add: inj_def)

lemma apply_scalar_fields_eq:
  "apply_scalar_fields data t = (scalar_write data t, scalar_changes data t)"
  unfolding apply_scalar_fields_def Let_def
  apply (subst set_attr_eq, rule inj_boxes, simp)
  apply (subst set_attr_eq, rule inj_boxes, simp split: option.splits)
  apply (subst set_attr_eq, rule inj_boxes, simp split: option.splits)
  apply (subst set_attr_eq, rule inj_boxes, simp split: option.splits)
  apply (subst set_attr_eq, rule inj_boxes, simp split: option.splits)
  apply (subst set_attr_eq, rule inj_boxes, simp split: option.splits)
  apply (subst set_attr_eq, rule inj_boxes, simp split: option.splits)
  apply (simp add: scalar_write_def scalar_changes_def split: option.splits)
  done


lemma link_tags_eq:
  "link_tags names (s, acc) =
     (s\<lparr>tag_rows := fst (link_rows names (tag_rows s, acc))\<rparr>,
      snd (link_rows names (tag_rows s, acc)))"
proof (induction names arbitrary: s acc)
  case Nil
  show ?case by simp
next
  case (Cons n ns)
  show ?case
  proof (cases "find (\<lambda>g. tag_name g = n) (tag_rows s)")
    case None
    then show ?thesis by (simp add: Let_def Cons.IH)
  next
    case (Some g)
    then show ?thesis by (simp add: Cons.IH)
  qed
qed

lemma users_with_ids_nil: "users_with_ids s [] = []"
  by (simp add: users_with_ids_def)

lemma task_changes_eq:
  "task_changes (tid, t) data s =
     (s\<lparr>tag_rows := fst (synced_tags data t (tag_rows s))\<rparr>,
      (scalar_write data t)\<lparr>tags := snd (synced_tags data t (tag_rows s)),
                             collaborators := synced_collaborators data t s\<rparr>,
      scalar_changes data t @ relation_changes data)"
proof -
  have u: "users_with_ids (s\<lparr>tag_rows := r\<rparr>) ids = users_with_ids s ids" for r ids
    by (simp add: users_with_ids_def)
  have w: "(scalar_write data t)\<lparr>tags := tags t, collaborators := cs\<rparr>
           = (scalar_write data t)\<lparr>collaborators := cs\<rparr>" for cs
    by (simp add: scalar_write_def)
  have w': "(scalar_write data t)\<lparr>tags := ts, collaborators := collaborators t\<rparr>
           = (scalar_write data t)\<lparr>tags := ts\<rparr>" for ts
    by (simp add: scalar_write_def)
  have w2: "(scalar_write data t)\<lparr>collaborators := collaborators t\<rparr> = scalar_write data t"
    by (simp add: scalar_write_def)
  show ?thesis
    by (cases "upd_tag_names data"; cases "upd_collaborator_ids data")
       (simp_all add: task_changes_def apply_scalar_fields_eq apply_tag_names_def
          apply_collaborator_ids_def relation_changes_def synced_tags_def link_tags_eq
          synced_collaborators_def u w w' w2 users_with_ids_nil split_beta)
qed

lemma find_append:
  "find P (xs @ ys) = (case find P xs of None \<Rightarrow> find P ys | Some x \<Rightarrow> Some x)"
  by (induction xs) auto

lemma find_Some_mem: "find P xs = Some x \<Longrightarrow> x \<in> set xs \<and> P x"
  by (induction xs) (auto split: if_splits)

lemma link_rows_prefix: "prefix rows (fst (link_rows names (rows, acc)))"
proof (induction names arbitrary: rows acc)
  case Nil
  show ?case by simp
next
  case (Cons n ns)
  show ?case
  proof (cases "find (\<lambda>g. tag_name g = n) rows")
    case None
    let ?g = "\<lparr>tag_id = next_id (map tag_id rows), tag_name = n\<rparr>"
    have "prefix (rows @ [?g]) (fst (link_rows ns (rows @ [?g], acc @ [?g])))"
      by (rule Cons.IH)
    then have "prefix rows (fst (link_rows ns (rows @ [?g], acc @ [?g])))"
      by (rule append_prefixD)
    with None show ?thesis by (simp add: Let_def)
  next
    case (Some g)
    with Cons.IH [of rows "acc @ [g]"] show ?thesis by simp
  qed
qed

lemma link_rows_names:
  "map tag_name (snd (link_rows names (rows, acc))) = map tag_name acc @ names"
proof (induction names arbitrary: rows acc)
  case Nil
  show ?case by simp
next
  case (Cons n ns)
  show ?case
  proof (cases "find (\<lambda>g. tag_name g = n) rows")
    case None
    then show ?thesis by (simp add: Let_def Cons.IH)
  next
    case (Some g)
    then have "tag_name g = n" by (auto dest: find_Some_mem)
    with Some show ?thesis by (simp add: Cons.IH)
  qed
qed


lemma link_rows_idem:
  "link_rows names (fst (link_rows names (rows, acc)), acc) = link_rows names (rows, acc)"
proof (induction names arbitrary: rows acc)
  case Nil
  show ?case by simp
next
  case (Cons n ns)
  show ?case
  proof (cases "find (\<lambda>g. tag_name g = n) rows")
    case None
    let ?g = "\<lparr>tag_id = next_id (map tag_id rows), tag_name = n\<rparr>"
    let ?R = "link_rows ns (rows @ [?g], acc @ [?g])"
    have R: "link_rows (n # ns) (rows, acc) = ?R"
      using None by (simp add: Let_def)
    obtain ex where ex: "fst ?R = (rows @ [?g]) @ ex"
      using link_rows_prefix [of "rows @ [?g]" ns "acc @ [?g]"] by (auto simp: prefix_def)
    have "find (\<lambda>g. tag_name g = n) (fst ?R) = Some ?g"
      using None by (simp add: ex find_append)
    then have "link_rows (n # ns) (fst ?R, acc) = link_rows ns (fst ?R, acc @ [?g])"
      by simp
    also have "\<dots> = ?R" by (rule Cons.IH)
    finally show ?thesis by (simp only: R)
  next
    case (Some g)
    let ?R = "link_rows ns (rows, acc @ [g])"
    have R: "link_rows (n # ns) (rows, acc) = ?R"
      using Some by simp
    obtain ex where ex: "fst ?R = rows @ ex"
      using link_rows_prefix [of rows ns "acc @ [g]"] by (auto simp: prefix_def)
    have "find (\<lambda>g. tag_name g = n) (fst ?R) = Some g"
      using Some by (simp add: ex find_append)
    then have "link_rows (n # ns) (fst ?R, acc) = link_rows ns (fst ?R, acc @ [g])"
      by simp
    also have "\<dots> = ?R" by (rule Cons.IH)
    finally show ?thesis by (simp only: R)
  qed
qed


lemma case_option_twice:
  "(case v of None \<Rightarrow> (case v of None \<Rightarrow> a | Some x \<Rightarrow> f x) | Some x \<Rightarrow> f x)
     = (case v of None \<Rightarrow> a | Some x \<Rightarrow> f x)"
  by (cases v) simp_all

lemma field_change_written:
  "field_change fld (map_option box (case v of None \<Rightarrow> old | Some x \<Rightarrow> Some x)) (map_option box v) = []"
  "field_change fld (Some (box (case v of None \<Rightarrow> a | Some x \<Rightarrow> x))) (map_option box v) = []"
  by (cases v; simp add: field_change_def)+

lemma scalar_write_idem:
  "scalar_write data ((scalar_write data t)\<lparr>tags := ts, collaborators := cs\<rparr>)
     = (scalar_write data t)\<lparr>tags := ts, collaborators := cs\<rparr>"
  by (simp add: scalar_write_def case_option_twice cong del: option.case_cong_weak)

lemma scalar_changes_idem:
  "scalar_changes data ((scalar_write data t)\<lparr>tags := ts, collaborators := cs\<rparr>) = []"
  by (simp add: scalar_changes_def scalar_write_def field_change_written)


lemma synced_tags_idem:
  "tags t1 = snd (synced_tags data t rows)
   \<Longrightarrow> synced_tags data t1 (fst (synced_tags data t rows)) = synced_tags data t rows"
  by (cases "upd_tag_names data") (simp_all add: synced_tags_def link_rows_idem)

lemma synced_collaborators_idem:
  "user_rows s1 = user_rows s \<Longrightarrow> collaborators t1 = synced_collaborators data t s
   \<Longrightarrow> synced_collaborators data t1 s1 = synced_collaborators data t s"
  by (cases "upd_collaborator_ids data") (simp_all add: synced_collaborators_def users_with_ids_def)

lemma task_changes_again:
  "task_changes (tid, fst (snd (task_changes (tid, t) data s))) data (fst (task_changes (tid, t) data s))
     = (fst (task_changes (tid, t) data s), fst (snd (task_changes (tid, t) data s)),
        relation_changes data)"
  by (simp add: task_changes_eq scalar_write_idem scalar_changes_idem synced_tags_idem
        synced_collaborators_idem)

lemma apply_task_updates_eq:
  "apply_task_updates (tid, t) data s uid =
     s\<lparr>tag_rows := fst (synced_tags data t (tag_rows s)),
       task_rows := AList.update tid (fst (snd (task_changes (tid, t) data s))) (task_rows s),
       event_rows := event_rows s
          @ map (update_event tid uid) (scalar_changes data t @ relation_changes data)\<rparr>"
  by (simp add: apply_task_updates_def task_changes_eq)

lemma apply_task_updates_again:
  "apply_task_updates (tid, fst (snd (task_changes (tid, t) data s))) data
       (apply_task_updates (tid, t) data s uid) uid
     = (apply_task_updates (tid, t) data s uid)
         \<lparr>event_rows := event_rows (apply_task_updates (tid, t) data s uid)
            @ map (update_event tid uid) (relation_changes data)\<rparr>"
  by (simp add: apply_task_updates_eq task_changes_eq scalar_write_idem scalar_changes_idem
        synced_tags_idem synced_collaborators_idem)

lemma relation_changes_length:
  "length (relation_changes data)
     = (if upd_tag_names data = None then 0 else 1)
       + (if upd_collaborator_ids data = None then 0 else 1)"
  by (simp add: relation_changes_def split: option.splits)

subsection \<open>What \<open>update_task\<close> stores\<close>


lemma stored_links_same: "stored_links xs xs = xs"
  by (simp add: stored_links_def new_links_def)

lemma new_links_same: "new_links xs xs = []"
  by (simp add: new_links_def)

lemma links_distinct:
  assumes "tag_names_distinct data"
  shows "distinct (new_links (tags t) (snd (synced_tags data t rows)))"
proof (cases "upd_tag_names data")
  case None
  then show ?thesis by (simp add: synced_tags_def new_links_same)
next
  case (Some names)
  with assms have "distinct names" by (simp add: tag_names_distinct_def)
  then have "distinct (map tag_name (snd (link_rows names (rows, []))))"
    by (simp add: link_rows_names)
  then have "distinct (snd (link_rows names (rows, [])))"
    by (simp add: distinct_map)
  with Some show ?thesis by (simp add: synced_tags_def new_links_def)
qed

lemma updated_without_tag_names:
  assumes "upd_tag_names data = None"
  shows "updated_task t data s = fst (snd (task_changes (tid, t) data s))"
    and "updated_store tid t data s uid = apply_task_updates (tid, t) data s uid"
proof -
  show 1: "updated_task t data s = fst (snd (task_changes (tid, t) data s))"
    using assms by (simp add: updated_task_def task_changes_eq synced_tags_def stored_links_same)
  from 1 have "fst (snd (task_changes (tid, t) data s)) = updated_task t data s" by simp
  then show "updated_store tid t data s uid = apply_task_updates (tid, t) data s uid"
    by (simp add: updated_store_def apply_task_updates_eq)
qed

lemma flush_after_apply:
  "flush_task_tags (tags t) tid (apply_task_updates (tid, t) data s uid) =
     (if distinct (new_links (tags t) (snd (synced_tags data t (tag_rows s))))
      then Some (updated_store tid t data s uid) else None)"
  by (simp add: flush_task_tags_def apply_task_updates_eq task_changes_eq update_conv'
        updated_store_def updated_task_def scalar_write_def)

lemma update_task_outcome:
  assumes "map_of (task_rows (session_state d)) tid = Some t"
    and "actor_role u = ''admin'' \<or> actor_role u = ''manager''
         \<or> actor_id u = created_by_id t \<or> assignee_id t = Some (actor_id u)"
  shows "update_task tid data d u =
           (if distinct (new_links (tags t) (snd (synced_tags data t (tag_rows (session_state d)))))
            then (db_commit (d\<lparr>session_state :=
                      updated_store tid t data (session_state d) (actor_id u)\<rparr>),
                  Inr (tid, updated_task t data (session_state d)))
            else (d, Inl Integrity_error))"
proof -
  have "db_refresh (updated_store tid t data (session_state d) (actor_id u)) (tid, t)
        = (tid, updated_task t data (session_state d))"
    by (simp add: db_refresh_def updated_store_def update_conv')
  with assms show ?thesis
    by (auto simp: update_task_def Let_def flush_after_apply)
qed

lemma update_task_ok:
  assumes "map_of (task_rows (session_state d)) tid = Some t"
    and "actor_role u = ''admin'' \<or> actor_role u = ''manager''
         \<or> actor_id u = created_by_id t \<or> assignee_id t = Some (actor_id u)"
    and "tag_names_distinct data"
  shows "update_task tid data d u =
           (db_commit (d\<lparr>session_state := updated_store tid t data (session_state d) (actor_id u)\<rparr>),
            Inr (tid, updated_task t data (session_state d)))"
  using update_task_outcome [OF assms(1,2), of data] links_distinct [OF assms(3)] by simp

lemma update_task_denied:
  assumes "map_of (task_rows (session_state d)) tid = Some t"
    and "\<not> (actor_role u = ''admin'' \<or> actor_role u = ''manager''
         \<or> actor_id u = created_by_id t \<or> assignee_id t = Some (actor_id u))"
  shows "update_task tid task_in d u = (d, Inl Forbidden)"
  using assms
  by (auto simp: update_task_def)

lemma update_task_Inr:
  assumes "map_of (task_rows (session_state d)) tid = Some t"
    and "update_task tid data d u = (d', Inr r)"
  shows "r = (tid, updated_task t data (session_state d))
         \<and> d' = db_commit (d\<lparr>session_state :=
                   updated_store tid t data (session_state d) (actor_id u)\<rparr>)"
proof (cases "actor_role u = ''admin'' \<or> actor_role u = ''manager''
         \<or> actor_id u = created_by_id t \<or> assignee_id t = Some (actor_id u)")
  case True
  from update_task_outcome [OF assms(1) True, of data] assms(2) show ?thesis
    by (auto split: if_splits)
next
  case False
  from update_task_denied [OF assms(1) False, of data] assms(2) show ?thesis by simp
qed

lemma update_task_row:
  assumes "map_of (task_rows (session_state d)) tid = Some t"
    and "update_task tid data d u = (d', Inr r)"
  shows "map_of (task_rows (session_state d')) tid = Some (snd r)"
  using update_task_Inr [OF assms]
  by (simp add: db_commit_def updated_store_def update_conv')

subsection \<open>Authorization\<close>

text \<open>
  C5. For an existing task, \<open>update_task\<close> goes past authorization exactly when the
  caller's role is admin or manager, or the caller is the task's creator, or the caller is
  its assignee. It then applies the patch and commits: the result is the stored task, or,
  when the commit refuses the tag links, \<open>IntegrityError\<close> with nothing stored. A patch that
  repeats no tag name is always stored, and for a patch without tag names the stored state
  is the one \<open>_apply_task_updates\<close> leaves. In every other case \<open>update_task\<close> raises 403
  and the session, and with it the task, is as before.
\<close>

theorem update_task_authorization:
  assumes "map_of (task_rows (session_state d)) tid = Some t"
  shows "if actor_role u = ''admin'' \<or> actor_role u = ''manager''
            \<or> actor_id u = created_by_id t \<or> assignee_id t = Some (actor_id u)
         then snd (update_task tid task_in d u) \<noteq> Inl Forbidden
           \<and> (update_task tid task_in d u = (d, Inl Integrity_error)
               \<or> update_task tid task_in d u =
                    (db_commit (d\<lparr>session_state :=
                         updated_store tid t task_in (session_state d) (actor_id u)\<rparr>),
                     Inr (tid, updated_task t task_in (session_state d))))
           \<and> (tag_names_distinct task_in \<longrightarrow>
                update_task tid task_in d u =
                  (db_commit (d\<lparr>session_state :=
                       updated_store tid t task_in (session_state d) (actor_id u)\<rparr>),
                   Inr (tid, updated_task t task_in (session_state d))))
           \<and> (upd_tag_names task_in = None \<longrightarrow>
                (\<exists>t'. update_task tid task_in d u =
                   (db_commit (d\<lparr>session_state :=
                        apply_task_updates (tid, t) task_in (session_state d) (actor_id u)\<rparr>),
                    Inr (tid, t'))))
         else update_task tid task_in d u = (d, Inl Forbidden)"
proof (cases "actor_role u = ''admin'' \<or> actor_role u = ''manager''
            \<or> actor_id u = created_by_id t \<or> assignee_id t = Some (actor_id u)")
  case True
  note out = update_task_outcome [OF assms True, of task_in]
  have 1: "snd (update_task tid task_in d u) \<noteq> Inl Forbidden"
    by (simp add: out)
  have 2: "update_task tid task_in d u = (d, Inl Integrity_error)
           \<or> update_task tid task_in d u =
                (db_commit (d\<lparr>session_state :=
                     updated_store tid t task_in (session_state d) (actor_id u)\<rparr>),
                 Inr (tid, updated_task t task_in (session_state d)))"
    by (simp add: out)
  have 3: "update_task tid task_in d u =
             (db_commit (d\<lparr>session_state :=
                  updated_store tid t task_in (session_state d) (actor_id u)\<rparr>),
              Inr (tid, updated_task t task_in (session_state d)))"
    if "tag_names_distinct task_in"
    using update_task_ok [OF assms True that] .
  have 4: "\<exists>t'. update_task tid task_in d u =
             (db_commit (d\<lparr>session_state :=
                  apply_task_updates (tid, t) task_in (session_state d) (actor_id u)\<rparr>),
              Inr (tid, t'))"
    if n: "upd_tag_names task_in = None"
  proof -
    from n have "tag_names_distinct task_in" by (simp add: tag_names_distinct_def)
    from 3 [OF this] show ?thesis
      by (simp add: updated_without_tag_names(2) [OF n])
  qed
  from True 1 2 3 4 show ?thesis by (simp only: if_True) blast
next
  case False
  from update_task_denied [OF assms False] False show ?thesis by (simp only: if_False)
qed

theorem update_task_authorization_witness:
  "map_of (task_rows (session_state demo_db)) 1 = Some demo_task
   \<and> update_task 1 no_update demo_db member_3 = (demo_db, Inl Forbidden)
   \<and> (\<exists>t'. update_task 1 no_update demo_db member_2 =
         (db_commit (demo_db\<lparr>session_state :=
              apply_task_updates (1, demo_task) no_update (session_state demo_db) 2\<rparr>),
          Inr (1, t')))"
proof -
  have h: "map_of (task_rows (session_state demo_db)) 1 = Some demo_task"
    by (simp add: demo_db_def demo_store_def)
  have a: "update_task 1 no_update demo_db member_3 = (demo_db, Inl Forbidden)"
    using update_task_authorization [OF h, of member_3 no_update]
    by (simp add: member_3_def demo_task_def)
  have n: "upd_tag_names no_update = None" by (simp add: no_update_def)
  have b: "\<exists>t'. update_task 1 no_update demo_db member_2 =
         (db_commit (demo_db\<lparr>session_state :=
              apply_task_updates (1, demo_task) no_update (session_state demo_db) 2\<rparr>),
          Inr (1, t'))"
    using update_task_authorization [OF h, of member_2 no_update] n
    by (simp add: member_2_def demo_task_def)
  from h a b show ?thesis by blast
qed

text \<open>
  C6. For an existing task, \<open>delete_task\<close> goes past authorization exactly when the caller's
  role is admin or manager or the caller is the task's creator: the result is then never
  403, and it is the committed deletion when no event and no dependency refers to the
  task and \<open>IntegrityError\<close> with nothing deleted when one does. Every other caller, the
  assignee included, gets 403 and the session is as before.
\<close>

theorem delete_task_authorization:
  assumes "map_of (task_rows (session_state d)) tid = Some t"
  shows "if actor_role u = ''admin'' \<or> actor_role u = ''manager'' \<or> actor_id u = created_by_id t
         then snd (delete_task tid d u) \<noteq> Inl Forbidden
           \<and> delete_task tid d u =
               (if task_is_referenced (session_state d) tid then (d, Inl Integrity_error)
                else (db_commit (d\<lparr>session_state :=
                        (session_state d)\<lparr>task_rows :=
                           map (detach_subtask tid)
                             (AList.delete tid (task_rows (session_state d)))\<rparr>\<rparr>),
                      Inr ()))
         else delete_task tid d u = (d, Inl Forbidden)"
  using assms by (simp add: delete_task_def Let_def)

theorem delete_task_authorization_witness:
  "map_of (task_rows (session_state demo_db)) 1 = Some demo_task
   \<and> delete_task 1 demo_db member_2 = (demo_db, Inl Forbidden)
   \<and> delete_task 1 demo_db member_3 = (demo_db, Inl Forbidden)
   \<and> delete_task 1 demo_db member_1 = (demo_db, Inl Integrity_error)
   \<and> delete_task 1 demo_db manager_7 = (demo_db, Inl Integrity_error)
   \<and> snd (delete_task 1 unlogged_db member_1) = Inr ()
   \<and> map_of (task_rows (session_state (fst (delete_task 1 unlogged_db member_1)))) 1 = None
   \<and> delete_task 1 unlogged_db member_2 = (unlogged_db, Inl Forbidden)"
proof -
  have h: "map_of (task_rows (session_state demo_db)) 1 = Some demo_task"
    by (simp add: demo_db_def demo_store_def)
  have h': "map_of (task_rows (session_state unlogged_db)) 1 = Some demo_task"
    by (simp add: unlogged_db_def demo_store_def)
  have r: "task_is_referenced (session_state demo_db) 1"
    by (simp add: task_is_referenced_def demo_db_def demo_store_def create_event_def)
  have r': "\<not> task_is_referenced (session_state unlogged_db) 1"
    by (simp add: task_is_referenced_def unlogged_db_def demo_store_def)
  have a: "delete_task 1 demo_db member_2 = (demo_db, Inl Forbidden)"
    using delete_task_authorization [OF h, of member_2]
    by (simp add: member_2_def demo_task_def)
  have b: "delete_task 1 demo_db member_3 = (demo_db, Inl Forbidden)"
    using delete_task_authorization [OF h, of member_3]
    by (simp add: member_3_def demo_task_def)
  have c: "delete_task 1 demo_db member_1 = (demo_db, Inl Integrity_error)"
    using delete_task_authorization [OF h, of member_1] r
    by (simp add: member_1_def demo_task_def)
  have e: "delete_task 1 demo_db manager_7 = (demo_db, Inl Integrity_error)"
    using delete_task_authorization [OF h, of manager_7] r
    by (simp add: manager_7_def demo_task_def)
  have f: "delete_task 1 unlogged_db member_1 =
             (db_commit (unlogged_db\<lparr>session_state :=
                  (session_state unlogged_db)\<lparr>task_rows :=
                     map (detach_subtask 1)
                       (AList.delete 1 (task_rows (session_state unlogged_db)))\<rparr>\<rparr>),
              Inr ())"
    using delete_task_authorization [OF h', of member_1] r'
    by (simp add: member_1_def demo_task_def)
  have g: "map_of (task_rows (session_state (fst (delete_task 1 unlogged_db member_1)))) 1 = None"
    unfolding f by (simp add: db_commit_def unlogged_db_def demo_store_def detach_subtask_def)
  have i: "delete_task 1 unlogged_db member_2 = (unlogged_db, Inl Forbidden)"
    using delete_task_authorization [OF h', of member_2]
    by (simp add: member_2_def demo_task_def)
  from h a b c e f g i show ?thesis by simp
qed

subsection \<open>Dependencies\<close>

text \<open>
  C7. \<open>add_dependency\<close> with equal ids raises 400 whatever the tables hold: the check
  comes before both task lookups, so it also wins over 404 for an id without a task, and
  the session is returned as it was, with no dependency row and no event added.
\<close>

theorem add_dependency_self_rejected:
  "add_dependency t t d current_user = (d, Inl Validation)"
  by (simp add: add_dependency_def)

subsection \<open>Null members of a patch\<close>

text \<open>
  C10. A member of the request body that is \<open>null\<close> validates to the same \<open>TaskUpdate\<close> as
  the member left out, for each of the seven scalar fields, and after a successful
  \<open>update_task\<close> such a field of the stored task is what it was. A nullable field that held
  a value before the update holds a value after it, whatever the patch.
\<close>

theorem null_member_keeps_field:
  assumes "map_of (task_rows (session_state d)) tid = Some t"
    and "update_task tid (TaskUpdate b) d u = (d', Inr (tid', t'))"
  shows "map_of (task_rows (session_state d')) tid = Some t'
    \<and> (body_title b = Null \<or> body_title b = Absent \<longrightarrow> title t' = title t)
    \<and> (body_description b = Null \<or> body_description b = Absent \<longrightarrow> description t' = description t)
    \<and> (body_status b = Null \<or> body_status b = Absent \<longrightarrow> status t' = status t)
    \<and> (body_priority b = Null \<or> body_priority b = Absent \<longrightarrow> priority t' = priority t)
    \<and> (body_due_date b = Null \<or> body_due_date b = Absent \<longrightarrow> due_date t' = due_date t)
    \<and> (body_assignee_id b = Null \<or> body_assignee_id b = Absent \<longrightarrow> assignee_id t' = assignee_id t)
    \<and> (body_parent_id b = Null \<or> body_parent_id b = Absent \<longrightarrow> parent_id t' = parent_id t)
    \<and> (description t \<noteq> None \<longrightarrow> description t' \<noteq> None)
    \<and> (due_date t \<noteq> None \<longrightarrow> due_date t' \<noteq> None)
    \<and> (assignee_id t \<noteq> None \<longrightarrow> assignee_id t' \<noteq> None)
    \<and> (parent_id t \<noteq> None \<longrightarrow> parent_id t' \<noteq> None)
    \<and> TaskUpdate (b\<lparr>body_title := Null\<rparr>) = TaskUpdate (b\<lparr>body_title := Absent\<rparr>)
    \<and> TaskUpdate (b\<lparr>body_description := Null\<rparr>) = TaskUpdate (b\<lparr>body_description := Absent\<rparr>)
    \<and> TaskUpdate (b\<lparr>body_status := Null\<rparr>) = TaskUpdate (b\<lparr>body_status := Absent\<rparr>)
    \<and> TaskUpdate (b\<lparr>body_priority := Null\<rparr>) = TaskUpdate (b\<lparr>body_priority := Absent\<rparr>)
    \<and> TaskUpdate (b\<lparr>body_due_date := Null\<rparr>) = TaskUpdate (b\<lparr>body_due_date := Absent\<rparr>)
    \<and> TaskUpdate (b\<lparr>body_assignee_id := Null\<rparr>) = TaskUpdate (b\<lparr>body_assignee_id := Absent\<rparr>)
    \<and> TaskUpdate (b\<lparr>body_parent_id := Null\<rparr>) = TaskUpdate (b\<lparr>body_parent_id := Absent\<rparr>)"
proof -
  have t': "t' = updated_task t (TaskUpdate b) (session_state d)"
    using update_task_Inr [OF assms] by simp
  have row: "map_of (task_rows (session_state d')) tid = Some t'"
    using update_task_row [OF assms] by simp
  have fields:
    "title t' = (case optional_field (body_title b) of None \<Rightarrow> title t | Some v \<Rightarrow> v)"
    "description t' = (case optional_field (body_description b) of None \<Rightarrow> description t | Some v \<Rightarrow> Some v)"
    "status t' = (case optional_field (body_status b) of None \<Rightarrow> status t | Some v \<Rightarrow> v)"
    "priority t' = (case optional_field (body_priority b) of None \<Rightarrow> priority t | Some v \<Rightarrow> v)"
    "due_date t' = (case optional_field (body_due_date b) of None \<Rightarrow> due_date t | Some v \<Rightarrow> Some v)"
    "assignee_id t' = (case optional_field (body_assignee_id b) of None \<Rightarrow> assignee_id t | Some v \<Rightarrow> Some v)"
    "parent_id t' = (case optional_field (body_parent_id b) of None \<Rightarrow> parent_id t | Some v \<Rightarrow> Some v)"
    by (simp_all add: t' updated_task_def scalar_write_def TaskUpdate_def)
  have keep:
    "description t \<noteq> None \<longrightarrow> description t' \<noteq> None"
    "due_date t \<noteq> None \<longrightarrow> due_date t' \<noteq> None"
    "assignee_id t \<noteq> None \<longrightarrow> assignee_id t' \<noteq> None"
    "parent_id t \<noteq> None \<longrightarrow> parent_id t' \<noteq> None"
    by (simp_all add: fields split: option.splits)
  have same:
    "body_title b = Null \<or> body_title b = Absent \<longrightarrow> title t' = title t"
    "body_description b = Null \<or> body_description b = Absent \<longrightarrow> description t' = description t"
    "body_status b = Null \<or> body_status b = Absent \<longrightarrow> status t' = status t"
    "body_priority b = Null \<or> body_priority b = Absent \<longrightarrow> priority t' = priority t"
    "body_due_date b = Null \<or> body_due_date b = Absent \<longrightarrow> due_date t' = due_date t"
    "body_assignee_id b = Null \<or> body_assignee_id b = Absent \<longrightarrow> assignee_id t' = assignee_id t"
    "body_parent_id b = Null \<or> body_parent_id b = Absent \<longrightarrow> parent_id t' = parent_id t"
    by (auto simp: fields)
  have eqs:
    "TaskUpdate (b\<lparr>body_title := Null\<rparr>) = TaskUpdate (b\<lparr>body_title := Absent\<rparr>)"
    "TaskUpdate (b\<lparr>body_description := Null\<rparr>) = TaskUpdate (b\<lparr>body_description := Absent\<rparr>)"
    "TaskUpdate (b\<lparr>body_status := Null\<rparr>) = TaskUpdate (b\<lparr>body_status := Absent\<rparr>)"
    "TaskUpdate (b\<lparr>body_priority := Null\<rparr>) = TaskUpdate (b\<lparr>body_priority := Absent\<rparr>)"
    "TaskUpdate (b\<lparr>body_due_date := Null\<rparr>) = TaskUpdate (b\<lparr>body_due_date := Absent\<rparr>)"
    "TaskUpdate (b\<lparr>body_assignee_id := Null\<rparr>) = TaskUpdate (b\<lparr>body_assignee_id := Absent\<rparr>)"
    "TaskUpdate (b\<lparr>body_parent_id := Null\<rparr>) = TaskUpdate (b\<lparr>body_parent_id := Absent\<rparr>)"
    by (simp_all add: TaskUpdate_def)
  from row keep same eqs show ?thesis by blast
qed

theorem null_member_keeps_field_witness:
  "map_of (task_rows (session_state demo_db)) 1 = Some demo_task
   \<and> (\<exists>d' t'. update_task 1 (TaskUpdate null_description) demo_db member_1 = (d', Inr (1, t'))
        \<and> map_of (task_rows (session_state d')) 1 = Some t'
        \<and> title t' = ''Ship release 2''
        \<and> description t' = Some ''cut the branch''
        \<and> assignee_id t' = Some 2)"
proof -
  have h: "map_of (task_rows (session_state demo_db)) 1 = Some demo_task"
    by (simp add: demo_db_def demo_store_def)
  have a: "actor_role member_1 = ''admin'' \<or> actor_role member_1 = ''manager''
         \<or> actor_id member_1 = created_by_id demo_task
         \<or> assignee_id demo_task = Some (actor_id member_1)"
    by (simp add: member_1_def demo_task_def)
  have di: "tag_names_distinct (TaskUpdate null_description)"
    by (simp add: tag_names_distinct_def TaskUpdate_def null_description_def)
  note ok = update_task_ok [OF h a di]
  note k = null_member_keeps_field [OF h ok]
  have n: "body_description null_description = Null" "body_assignee_id null_description = Null"
    by (simp_all add: null_description_def)
  let ?t = "updated_task demo_task (TaskUpdate null_description) (session_state demo_db)"
  have ti: "title ?t = ''Ship release 2''"
    by (simp add: updated_task_def scalar_write_def TaskUpdate_def null_description_def)
  from k n have "description ?t = description demo_task"
     and "assignee_id ?t = assignee_id demo_task"
     and "map_of (task_rows (session_state (db_commit (demo_db\<lparr>session_state :=
              updated_store 1 demo_task (TaskUpdate null_description) (session_state demo_db)
               (actor_id member_1)\<rparr>)))) 1
          = Some ?t"
    by blast+
  with h ok ti show ?thesis
    by (simp add: demo_task_def)
qed

subsection \<open>Status and priority values\<close>

text \<open>
  C3, as the code has it. A patch with a status and a priority outside the enumerations,
  sent by the task's creator, is not refused: the values are written, together with the
  new title of the same patch.
\<close>

theorem bogus_status_is_applied:
  "snd (update_task 1 bogus_status demo_db member_1)
     = Inr (1, demo_task\<lparr>title := ''Renamed'', status := ''bogus'', priority := ''urgent!''\<rparr>)
   \<and> map_of (task_rows (session_state (fst (update_task 1 bogus_status demo_db member_1)))) 1
     = Some (demo_task\<lparr>title := ''Renamed'', status := ''bogus'', priority := ''urgent!''\<rparr>)"
proof -
  have h: "map_of (task_rows (session_state demo_db)) 1 = Some demo_task"
    by (simp add: demo_db_def demo_store_def)
  have a: "actor_role member_1 = ''admin'' \<or> actor_role member_1 = ''manager''
         \<or> actor_id member_1 = created_by_id demo_task
         \<or> assignee_id demo_task = Some (actor_id member_1)"
    by (simp add: member_1_def demo_task_def)
  have di: "tag_names_distinct bogus_status"
    by (simp add: tag_names_distinct_def bogus_status_def no_update_def)
  note ok = update_task_ok [OF h a di]
  have t: "updated_task demo_task bogus_status (session_state demo_db)
           = demo_task\<lparr>title := ''Renamed'', status := ''bogus'', priority := ''urgent!''\<rparr>"
    by (simp add: updated_task_def scalar_write_def bogus_status_def no_update_def
          synced_tags_def synced_collaborators_def demo_task_def stored_links_same)
  from update_task_row [OF h ok] ok t show ?thesis by simp
qed

text \<open>
  C3, amended. \<open>update_task\<close> never raises a validation error: \<open>TaskUpdate\<close> declares status
  and priority as plain strings and no route compares them with the enumerations. For an
  existing task, a permitted caller and a patch that repeats no tag name the update
  succeeds; and whenever the update succeeds, a status or a priority carried by the patch,
  whatever string it is, is the status or priority of the stored task afterwards, and so
  is every other scalar field the patch carries.
\<close>

theorem update_task_no_enum_check:
  "snd (update_task tid data d u) \<noteq> Inl Validation
   \<and> (map_of (task_rows (session_state d)) tid = Some t
      \<and> (actor_role u = ''admin'' \<or> actor_role u = ''manager''
         \<or> actor_id u = created_by_id t \<or> assignee_id t = Some (actor_id u))
      \<and> tag_names_distinct data
      \<longrightarrow> (\<exists>d1 t1. update_task tid data d u = (d1, Inr (tid, t1))
             \<and> map_of (task_rows (session_state d1)) tid = Some t1
             \<and> (\<forall>v. upd_status data = Some v \<longrightarrow> status t1 = v)
             \<and> (\<forall>v. upd_priority data = Some v \<longrightarrow> priority t1 = v)))
   \<and> (map_of (task_rows (session_state d)) tid = Some t
      \<and> update_task tid data d u = (d', Inr (tid', t'))
      \<longrightarrow> map_of (task_rows (session_state d')) tid = Some t'
          \<and> (\<forall>v. upd_status data = Some v \<longrightarrow> status t' = v)
          \<and> (\<forall>v. upd_priority data = Some v \<longrightarrow> priority t' = v)
          \<and> (\<forall>v. upd_title data = Some v \<longrightarrow> title t' = v)
          \<and> (\<forall>v. upd_description data = Some v \<longrightarrow> description t' = Some v)
          \<and> (\<forall>v. upd_due_date data = Some v \<longrightarrow> due_date t' = Some v)
          \<and> (\<forall>v. upd_assignee_id data = Some v \<longrightarrow> assignee_id t' = Some v)
          \<and> (\<forall>v. upd_parent_id data = Some v \<longrightarrow> parent_id t' = Some v))"
proof -
  have nv: "snd (update_task tid data d u) \<noteq> Inl Validation"
    by (simp add: update_task_def Let_def split: option.splits)
  have st: "\<forall>v. upd_status data = Some v \<longrightarrow> status (updated_task t data (session_state d)) = v"
    and pr: "\<forall>v. upd_priority data = Some v \<longrightarrow> priority (updated_task t data (session_state d)) = v"
    and others:
      "\<forall>v. upd_title data = Some v \<longrightarrow> title (updated_task t data (session_state d)) = v"
      "\<forall>v. upd_description data = Some v
          \<longrightarrow> description (updated_task t data (session_state d)) = Some v"
      "\<forall>v. upd_due_date data = Some v
          \<longrightarrow> due_date (updated_task t data (session_state d)) = Some v"
      "\<forall>v. upd_assignee_id data = Some v
          \<longrightarrow> assignee_id (updated_task t data (session_state d)) = Some v"
      "\<forall>v. upd_parent_id data = Some v
          \<longrightarrow> parent_id (updated_task t data (session_state d)) = Some v"
    by (simp_all add: updated_task_def scalar_write_def)
  have any: "map_of (task_rows (session_state d')) tid = Some t'
          \<and> (\<forall>v. upd_status data = Some v \<longrightarrow> status t' = v)
          \<and> (\<forall>v. upd_priority data = Some v \<longrightarrow> priority t' = v)
          \<and> (\<forall>v. upd_title data = Some v \<longrightarrow> title t' = v)
          \<and> (\<forall>v. upd_description data = Some v \<longrightarrow> description t' = Some v)
          \<and> (\<forall>v. upd_due_date data = Some v \<longrightarrow> due_date t' = Some v)
          \<and> (\<forall>v. upd_assignee_id data = Some v \<longrightarrow> assignee_id t' = Some v)
          \<and> (\<forall>v. upd_parent_id data = Some v \<longrightarrow> parent_id t' = Some v)"
    if h: "map_of (task_rows (session_state d)) tid = Some t"
      and r: "update_task tid data d u = (d', Inr (tid', t'))"
  proof -
    from update_task_Inr [OF h r] have "t' = updated_task t data (session_state d)" by simp
    with update_task_row [OF h r] st pr others show ?thesis by simp
  qed
  have ok: "\<exists>d1 t1. update_task tid data d u = (d1, Inr (tid, t1))
             \<and> map_of (task_rows (session_state d1)) tid = Some t1
             \<and> (\<forall>v. upd_status data = Some v \<longrightarrow> status t1 = v)
             \<and> (\<forall>v. upd_priority data = Some v \<longrightarrow> priority t1 = v)"
    if h: "map_of (task_rows (session_state d)) tid = Some t"
      and a: "actor_role u = ''admin'' \<or> actor_role u = ''manager''
         \<or> actor_id u = created_by_id t \<or> assignee_id t = Some (actor_id u)"
      and di: "tag_names_distinct data"
  proof -
    note e = update_task_ok [OF h a di]
    from update_task_row [OF h e] e st pr show ?thesis by simp
  qed
  from nv any ok show ?thesis by blast
qed

theorem update_task_no_enum_check_witness:
  "\<exists>d' t'. update_task 1 bogus_status demo_db member_1 = (d', Inr (1, t'))
             \<and> map_of (task_rows (session_state d')) 1 = Some t'
             \<and> status t' = ''bogus'' \<and> priority t' = ''urgent!''"
proof -
  have h: "map_of (task_rows (session_state demo_db)) 1 = Some demo_task"
    by (simp add: demo_db_def demo_store_def)
  have a: "actor_role member_1 = ''admin'' \<or> actor_role member_1 = ''manager''
         \<or> actor_id member_1 = created_by_id demo_task
         \<or> assignee_id demo_task = Some (actor_id member_1)"
    by (simp add: member_1_def demo_task_def)
  have di: "tag_names_distinct bogus_status"
    by (simp add: tag_names_distinct_def bogus_status_def no_update_def)
  have s: "upd_status bogus_status = Some ''bogus''" "upd_priority bogus_status = Some ''urgent!''"
    by (simp_all add: bogus_status_def)
  note k = update_task_no_enum_check [of 1 bogus_status demo_db member_1 demo_task,
      THEN conjunct2, THEN conjunct1, rule_format, OF conjI [OF h conjI [OF a di]]]
  from k s show ?thesis by blast
qed

subsection \<open>Applying a patch twice\<close>

text \<open>
  C2, as the code has it. The patch \<open>retag\<close> carries \<open>tag_names\<close>. Applied a second time to
  the task and tables left by its first application, it reports the change of \<open>tags\<close>
  again, and \<open>_apply_task_updates\<close> adds one more \<open>update\<close> event.
\<close>

theorem repeated_tag_patch_reports_change:
  "snd (snd (task_changes (1, fst (snd (task_changes (1, demo_task) retag demo_store))) retag
               (fst (task_changes (1, demo_task) retag demo_store))))
     = [(''tags'', None, Some (PStr ''urgent,release''))]
   \<and> event_rows (apply_task_updates (1, fst (snd (task_changes (1, demo_task) retag demo_store)))
                   retag (apply_task_updates (1, demo_task) retag demo_store 1) 1)
     = event_rows (apply_task_updates (1, demo_task) retag demo_store 1)
       @ [\<lparr>ev_task_id = 1, ev_user_id = Some 1, event_type = ''update'', ev_field = Some ''tags'',
           old_value = None, new_value = Some ''urgent,release''\<rparr>]"
  by (simp add: task_changes_again apply_task_updates_again relation_changes_def retag_def
        no_update_def update_event_def)

text \<open>
  C2, amended. Let a patch be applied to a task, and then again to the task and tables the
  first application left. The second application changes neither the task nor the tables,
  reports no scalar field, and reports one change for \<open>tag_names\<close> when the patch carries
  it and one for \<open>collaborator_ids\<close> when the patch carries it; \<open>_apply_task_updates\<close>
  adds exactly these as events. The list is empty, and no event is added, when the patch
  carries neither relation.
\<close>

theorem second_application_changes:
  assumes "task_changes (tid, t) data s = (s1, t1, changed1)"
  shows "task_changes (tid, t1) data s1 = (s1, t1, relation_changes data)
    \<and> apply_task_updates (tid, t1) data (apply_task_updates (tid, t) data s uid) uid
        = (apply_task_updates (tid, t) data s uid)
            \<lparr>event_rows := event_rows (apply_task_updates (tid, t) data s uid)
               @ map (update_event tid uid) (relation_changes data)\<rparr>
    \<and> length (relation_changes data)
        = (if upd_tag_names data = None then 0 else 1)
          + (if upd_collaborator_ids data = None then 0 else 1)
    \<and> (upd_tag_names data = None \<and> upd_collaborator_ids data = None
        \<longrightarrow> task_changes (tid, t1) data s1 = (s1, t1, [])
          \<and> apply_task_updates (tid, t1) data (apply_task_updates (tid, t) data s uid) uid
              = apply_task_updates (tid, t) data s uid)"
proof -
  have s1: "s1 = fst (task_changes (tid, t) data s)"
    and t1: "t1 = fst (snd (task_changes (tid, t) data s))"
    using assms by simp_all
  have a: "task_changes (tid, t1) data s1 = (s1, t1, relation_changes data)"
    unfolding s1 t1 by (rule task_changes_again)
  have b: "apply_task_updates (tid, t1) data (apply_task_updates (tid, t) data s uid) uid
        = (apply_task_updates (tid, t) data s uid)
            \<lparr>event_rows := event_rows (apply_task_updates (tid, t) data s uid)
               @ map (update_event tid uid) (relation_changes data)\<rparr>"
    unfolding t1 by (rule apply_task_updates_again)
  have c: "relation_changes data = []"
    if "upd_tag_names data = None \<and> upd_collaborator_ids data = None"
    using that by (simp add: relation_changes_def)
  from a b c relation_changes_length [of data] show ?thesis by simp
qed

theorem second_application_changes_witness:
  "task_changes (1, demo_task) restatus demo_store
     = (demo_store, demo_task\<lparr>status := ''in_progress'', assignee_id := Some 1\<rparr>,
        [(''status'', Some (PStr ''todo''), Some (PStr ''in_progress'')),
         (''assignee_id'', Some (PInt 2), Some (PInt 1))])
   \<and> task_changes (1, demo_task\<lparr>status := ''in_progress'', assignee_id := Some 1\<rparr>) restatus demo_store
     = (demo_store, demo_task\<lparr>status := ''in_progress'', assignee_id := Some 1\<rparr>, [])
   \<and> apply_task_updates (1, demo_task\<lparr>status := ''in_progress'', assignee_id := Some 1\<rparr>) restatus
        (apply_task_updates (1, demo_task) restatus demo_store 1) 1
     = apply_task_updates (1, demo_task) restatus demo_store 1"
proof -
  have h: "task_changes (1, demo_task) restatus demo_store
     = (demo_store, demo_task\<lparr>status := ''in_progress'', assignee_id := Some 1\<rparr>,
        [(''status'', Some (PStr ''todo''), Some (PStr ''in_progress'')),
         (''assignee_id'', Some (PInt 2), Some (PInt 1))])"
    by (simp add: task_changes_eq scalar_write_def scalar_changes_def field_change_def
          relation_changes_def synced_tags_def synced_collaborators_def restatus_def
          no_update_def demo_task_def demo_store_def)
  have n: "upd_tag_names restatus = None \<and> upd_collaborator_ids restatus = None"
    by (simp add: restatus_def no_update_def)
  from second_application_changes [OF h, of 1] n h show ?thesis by blast
qed

subsection \<open>Relations after an update\<close>





subsection \<open>Creating a task\<close>

lemma fold_max_ge: "(a::int) \<le> fold max ks a \<and> (\<forall>k \<in> set ks. k \<le> fold max ks a)"
proof (induction ks arbitrary: a)
  case Nil
  show ?case by simp
next
  case (Cons k ks)
  from Cons.IH [of "max k a"] show ?case by auto
qed

lemma next_id_fresh: "next_id ks \<notin> set ks"
proof
  assume "next_id ks \<in> set ks"
  with fold_max_ge [of 0 ks] have "next_id ks \<le> fold max ks 0" by blast
  then show False by (simp add: next_id_def)
qed

lemma map_of_new_row: "k \<notin> fst ` set rows \<Longrightarrow> map_of (rows @ [(k, v)]) k = Some v"
  by (induction rows) auto

lemma db_refresh_new_row:
  "task_rows s = rows @ [(next_id (map fst rows), t)]
   \<Longrightarrow> db_refresh s (next_id (map fst rows), t) = (next_id (map fst rows), t)"
  using map_of_new_row [of "next_id (map fst rows)" rows t] next_id_fresh [of "map fst rows"]
  by (simp add: db_refresh_def)

lemma links_of_new_task: "new_links [] ts = ts" "stored_links [] ts = ts"
  by (simp_all add: new_links_def stored_links_def)

lemma create_task_eq:
  "create_task task_in d u =
     (let s0 = session_state d;
          tid = next_id (map fst (task_rows s0));
          t = new_task task_in s0 u;
          s_task = s0\<lparr>tag_rows := new_tag_rows task_in s0,
                      task_rows := task_rows s0 @ [(tid, t)]\<rparr>;
          s_last = s_task\<lparr>event_rows := event_rows s0 @ [create_event tid (actor_id u)]\<rparr>
      in if \<not> distinct (tags t) then (d, Inl Integrity_error)
         else (\<lparr>session_state = s_last, commit_log = commit_log d @ [s_task, s_last]\<rparr>,
               Inr (tid, t)))"
proof -
  have u0: "users_with_ids (s\<lparr>tag_rows := r\<rparr>) ids = users_with_ids s ids" for s r ids
    by (simp add: users_with_ids_def)
  show ?thesis
    by (cases d; cases "new_tag_names task_in"; cases "new_collaborator_ids task_in")
       (simp_all add: create_task_def Let_def db_commit_def link_tags_eq split_beta
          db_refresh_new_row links_of_new_task new_task_def new_tag_rows_def u0
          users_with_ids_nil)
qed

text \<open>
  C1, as the code has it. \<open>create_task\<close> commits twice. In the example the new task gets
  the id 3 and the log of committed states grows from one entry to three; the state made
  durable by the first commit holds the row of task 3 and no \<open>create\<close> event for it.
\<close>

theorem create_task_commits_task_before_event:
  "snd (create_task demo_create demo_db member_1) = Inr (3, demo_created)
   \<and> length (commit_log (fst (create_task demo_create demo_db member_1))) = 3
   \<and> map_of (task_rows (commit_log (fst (create_task demo_create demo_db member_1)) ! 1)) 3
       = Some demo_created
   \<and> create_events (commit_log (fst (create_task demo_create demo_db member_1)) ! 1) 3 = []"
  by (simp add: create_task_eq Let_def new_task_def new_tag_rows_def py_or_def next_id_def
        users_with_ids_def demo_create_def demo_created_def demo_db_def demo_store_def
        member_1_def create_events_def create_event_def)

text \<open>
  C1, amended. Let every event of the starting state refer to a task that has a row (the
  foreign key of \<open>task_events\<close>). When \<open>create_task\<close> returns the task, it has stored it
  under an id no row had and has committed exactly two states: the first holds the task
  and no \<open>create\<close> event for it, the second, in which the request ends, holds the task and
  exactly one \<open>create\<close> event for it, by the caller.
\<close>

theorem create_task_two_commits:
  assumes "\<forall>e \<in> set (event_rows (session_state d)).
             ev_task_id e \<in> fst ` set (task_rows (session_state d))"
    and "create_task task_in d u = (d', Inr (tid, t))"
  shows "tid \<notin> fst ` set (task_rows (session_state d))
    \<and> created_by_id t = actor_id u
    \<and> (\<exists>s_task. commit_log d' = commit_log d @ [s_task, session_state d']
          \<and> map_of (task_rows s_task) tid = Some t
          \<and> create_events s_task tid = []
          \<and> map_of (task_rows (session_state d')) tid = Some t
          \<and> create_events (session_state d') tid = [create_event tid (actor_id u)])"
proof -
  let ?s0 = "session_state d"
  let ?s_task = "?s0\<lparr>tag_rows := new_tag_rows task_in ?s0,
                      task_rows := task_rows ?s0 @ [(tid, t)]\<rparr>"
  have e: "(d', Inr (tid, t) :: error + int \<times> task) =
       (\<lparr>session_state = ?s0\<lparr>tag_rows := new_tag_rows task_in ?s0,
                              task_rows := task_rows ?s0
                                @ [(next_id (map fst (task_rows ?s0)), new_task task_in ?s0 u)],
                              event_rows := event_rows ?s0
                                @ [create_event (next_id (map fst (task_rows ?s0))) (actor_id u)]\<rparr>,
         commit_log = commit_log d
           @ [?s0\<lparr>tag_rows := new_tag_rows task_in ?s0,
                  task_rows := task_rows ?s0
                    @ [(next_id (map fst (task_rows ?s0)), new_task task_in ?s0 u)]\<rparr>,
              ?s0\<lparr>tag_rows := new_tag_rows task_in ?s0,
                  task_rows := task_rows ?s0
                    @ [(next_id (map fst (task_rows ?s0)), new_task task_in ?s0 u)],
                  event_rows := event_rows ?s0
                    @ [create_event (next_id (map fst (task_rows ?s0))) (actor_id u)]\<rparr>]\<rparr>,
        Inr (next_id (map fst (task_rows ?s0)), new_task task_in ?s0 u))"
    using create_task_eq [of task_in d u] assms(2) by (simp add: Let_def split: if_splits)
  have tid: "tid = next_id (map fst (task_rows ?s0))" and t: "t = new_task task_in ?s0 u"
    using e by simp_all
  have fresh: "tid \<notin> fst ` set (task_rows ?s0)"
    using next_id_fresh [of "map fst (task_rows ?s0)"] by (simp add: tid)
  have none: "filter (\<lambda>e. ev_task_id e = tid \<and> event_type e = ''create'') (event_rows ?s0) = []"
    using assms(1) fresh by (auto simp: filter_empty_conv)
  have cb: "created_by_id t = actor_id u"
    by (simp add: t new_task_def)
  have d': "session_state d' = ?s_task\<lparr>event_rows := event_rows ?s0 @ [create_event tid (actor_id u)]\<rparr>"
    and log: "commit_log d' = commit_log d @ [?s_task, session_state d']"
    using e by (simp_all add: tid t)
  have 1: "map_of (task_rows ?s_task) tid = Some t"
    using map_of_new_row [OF fresh, of t] by simp
  have 2: "create_events ?s_task tid = []"
    using none by (simp add: create_events_def)
  have 3: "map_of (task_rows (session_state d')) tid = Some t"
    using map_of_new_row [OF fresh, of t] by (simp add: d')
  have 4: "create_events (session_state d') tid = [create_event tid (actor_id u)]"
    using none by (simp add: d' create_events_def create_event_def)
  from fresh cb log 1 2 3 4 show ?thesis by blast
qed

theorem create_task_two_commits_witness:
  "\<exists>d' s_task. create_task demo_create demo_db member_1 = (d', Inr (3, demo_created))
         \<and> commit_log d' = commit_log demo_db @ [s_task, session_state d']
         \<and> map_of (task_rows s_task) 3 = Some demo_created
         \<and> create_events s_task 3 = []
         \<and> create_events (session_state d') 3 = [create_event 3 1]"
proof -
  have fk: "\<forall>e \<in> set (event_rows (session_state demo_db)).
       ev_task_id e \<in> fst ` set (task_rows (session_state demo_db))"
    by (simp add: demo_db_def demo_store_def create_event_def)
  obtain d' where c: "create_task demo_create demo_db member_1 = (d', Inr (3, demo_created))"
    by (simp add: create_task_eq Let_def new_task_def new_tag_rows_def py_or_def next_id_def
          users_with_ids_def demo_create_def demo_created_def demo_db_def demo_store_def
          member_1_def)
  have u: "actor_id member_1 = 1" by (simp add: member_1_def)
  from create_task_two_commits [OF fk c] c u show ?thesis
    by (elim conjE exE) (intro conjI exI, auto)
qed

subsection \<open>Adding a dependency twice\<close>

lemma find_filter_None: "find P xs = None \<longleftrightarrow> filter P xs = []"
  by (induction xs) auto

lemma add_dependency_new:
  assumes "a \<noteq> b"
    and "map_of (task_rows (session_state d)) a \<noteq> None"
    and "map_of (task_rows (session_state d)) b \<noteq> None"
    and "dependency_count (session_state d) a b = 0"
  shows "add_dependency a b d u =
     (\<lparr>session_state = (session_state d)
          \<lparr>dependency_rows := dependency_rows (session_state d)
              @ [\<lparr>dep_task_id = a, dep_depends_on_id = b\<rparr>],
           event_rows := event_rows (session_state d) @ [dependency_event a (actor_id u) b]\<rparr>,
        commit_log = commit_log d
          @ [(session_state d)
               \<lparr>dependency_rows := dependency_rows (session_state d)
                   @ [\<lparr>dep_task_id = a, dep_depends_on_id = b\<rparr>]\<rparr>,
             (session_state d)
               \<lparr>dependency_rows := dependency_rows (session_state d)
                   @ [\<lparr>dep_task_id = a, dep_depends_on_id = b\<rparr>],
                event_rows := event_rows (session_state d) @ [dependency_event a (actor_id u) b]\<rparr>]\<rparr>,
      Inr ''Dependency added'')"
proof -
  have "find (\<lambda>r. dep_task_id r = a \<and> dep_depends_on_id r = b) (dependency_rows (session_state d)) = None"
    using assms(4) by (simp add: dependency_count_def find_filter_None)
  with assms(1-3) show ?thesis
    by (cases d) (simp add: add_dependency_def Let_def db_commit_def)
qed

lemma add_dependency_present:
  assumes "a \<noteq> b"
    and "map_of (task_rows (session_state d)) a \<noteq> None"
    and "map_of (task_rows (session_state d)) b \<noteq> None"
    and "dependency_count (session_state d) a b \<noteq> 0"
  shows "add_dependency a b d u = (d, Inr ''Dependency already exists'')"
proof -
  have "find (\<lambda>r. dep_task_id r = a \<and> dep_depends_on_id r = b) (dependency_rows (session_state d)) \<noteq> None"
    using assms(4) by (simp add: dependency_count_def find_filter_None)
  with assms(1-3) show ?thesis
    by (auto simp: add_dependency_def Let_def)
qed

text \<open>
  C8. Let \<open>a\<close> and \<open>b\<close> be different tasks that both have a row, in a state that has at most
  one dependency row for the pair (the unique constraint) and as many \<open>add_dependency\<close>
  events for it as rows. After two calls of \<open>add_dependency a b\<close> there is exactly one row
  and exactly one event for the pair; the second call changes nothing and returns
  \<open>Dependency already exists\<close>, with no error. The first call adds the row and the event
  when the pair had none.
\<close>

theorem add_dependency_twice:
  assumes "a \<noteq> b"
    and "map_of (task_rows (session_state d)) a \<noteq> None"
    and "map_of (task_rows (session_state d)) b \<noteq> None"
    and "dependency_count (session_state d) a b \<le> 1"
    and "dependency_event_count (session_state d) a b = dependency_count (session_state d) a b"
    and "add_dependency a b d u = (d1, r1)"
    and "add_dependency a b d1 u = (d2, r2)"
  shows "r2 = Inr ''Dependency already exists''
    \<and> d2 = d1
    \<and> dependency_count (session_state d2) a b = 1
    \<and> dependency_event_count (session_state d2) a b = 1
    \<and> (if dependency_count (session_state d) a b = 0
        then r1 = Inr ''Dependency added'' else r1 = Inr ''Dependency already exists'' \<and> d1 = d)"
proof (cases "dependency_count (session_state d) a b = 0")
  case True
  note first = add_dependency_new [OF assms(1-3) True, of u]
  from first assms(6) have r1: "r1 = Inr ''Dependency added''"
    and s1: "session_state d1 = (session_state d)
          \<lparr>dependency_rows := dependency_rows (session_state d)
              @ [\<lparr>dep_task_id = a, dep_depends_on_id = b\<rparr>],
           event_rows := event_rows (session_state d) @ [dependency_event a (actor_id u) b]\<rparr>"
    by auto
  have c1: "dependency_count (session_state d1) a b = 1"
    using True by (simp add: s1 dependency_count_def)
  have e1: "dependency_event_count (session_state d1) a b = 1"
    using True assms(5) by (simp add: s1 dependency_event_count_def dependency_event_def)
  have t1: "map_of (task_rows (session_state d1)) a \<noteq> None"
       "map_of (task_rows (session_state d1)) b \<noteq> None"
    using assms(2,3) by (simp_all add: s1)
  have "dependency_count (session_state d1) a b \<noteq> 0" using c1 by simp
  from add_dependency_present [OF assms(1) t1 this, of u] assms(7)
  have "d2 = d1" "r2 = Inr ''Dependency already exists''" by auto
  with r1 c1 e1 True show ?thesis by simp
next
  case False
  with assms(4) have one: "dependency_count (session_state d) a b = 1" by simp
  from add_dependency_present [OF assms(1-3) False, of u] assms(6)
  have 1: "d1 = d" "r1 = Inr ''Dependency already exists''" by auto
  from add_dependency_present [OF assms(1-3) False, of u] assms(7) 1
  have 2: "d2 = d" "r2 = Inr ''Dependency already exists''" by auto
  from 1 2 one assms(5) False show ?thesis by simp
qed

theorem add_dependency_twice_witness:
  "\<exists>d1 d2. add_dependency 1 2 demo_db member_3 = (d1, Inr ''Dependency added'')
      \<and> add_dependency 1 2 d1 member_3 = (d2, Inr ''Dependency already exists'')
      \<and> d2 = d1
      \<and> dependency_count (session_state d2) 1 2 = 1
      \<and> dependency_event_count (session_state d2) 1 2 = 1"
proof -
  have n: "(1::int) \<noteq> 2" by simp
  have a: "map_of (task_rows (session_state demo_db)) 1 \<noteq> None"
    and b: "map_of (task_rows (session_state demo_db)) 2 \<noteq> None"
    by (simp_all add: demo_db_def demo_store_def)
  have c: "dependency_count (session_state demo_db) 1 2 = 0"
    by (simp add: dependency_count_def demo_db_def demo_store_def)
  have c': "dependency_count (session_state demo_db) 1 2 \<le> 1" using c by simp
  have e: "dependency_event_count (session_state demo_db) 1 2
           = dependency_count (session_state demo_db) 1 2"
    by (simp add: dependency_event_count_def dependency_count_def demo_db_def demo_store_def
          create_event_def)
  obtain d1 r1 where 1: "add_dependency 1 2 demo_db member_3 = (d1, r1)" by force
  obtain d2 r2 where 2: "add_dependency 1 2 d1 member_3 = (d2, r2)" by force
  note k = add_dependency_twice [OF n a b c' e 1 2]
  from k c have "r1 = Inr ''Dependency added''" by simp
  with k 1 2 show ?thesis by auto
qed

subsection \<open>Bulk update\<close>

lemma bulkUpdate_spec_step:
  "bulkUpdate_spec u (item # items) s =
     (case map_of (task_rows s) (item_id item) of
        None \<Rightarrow> bulkUpdate_spec u items s
      | Some t \<Rightarrow>
          if update_denied u t then bulkUpdate_spec u items s
          else (fst (bulkUpdate_spec u items
                  (apply_task_updates (item_id item, t) (item_task_update item) s (actor_id u))),
                item_id item # snd (bulkUpdate_spec u items
                  (apply_task_updates (item_id item, t) (item_task_update item) s (actor_id u)))))"
proof (cases "map_of (task_rows s) (item_id item)")
  case None
  then show ?thesis by (simp add: update_task_def)
next
  case (Some t)
  have h: "map_of (task_rows (session_state \<lparr>session_state = s, commit_log = []\<rparr>)) (item_id item)
           = Some t"
    using Some by simp
  have n: "upd_tag_names (item_task_update item) = None"
    by (simp add: item_task_update_def)
  then have di: "tag_names_distinct (item_task_update item)"
    by (simp add: tag_names_distinct_def)
  show ?thesis
  proof (cases "update_denied u t")
    case True
    then have "\<not> (actor_role u = ''admin'' \<or> actor_role u = ''manager''
         \<or> actor_id u = created_by_id t \<or> assignee_id t = Some (actor_id u))"
      by (auto simp: update_denied_def)
    from update_task_denied [OF h this, of "item_task_update item"] Some True
    show ?thesis by simp
  next
    case False
    then have a: "actor_role u = ''admin'' \<or> actor_role u = ''manager''
         \<or> actor_id u = created_by_id t \<or> assignee_id t = Some (actor_id u)"
      by (auto simp: update_denied_def)
    from update_task_ok [OF h a di] Some False show ?thesis
      by (simp add: updated_without_tag_names(2) [OF n] db_commit_def split_beta)
  qed
qed

lemma bulk_loop_step:
  "bulk_loop found u (item # items) (s, acc) =
     (if item_id item \<notin> set found then bulk_loop found u items (s, acc)
      else
        (case map_of (task_rows s) (item_id item) of
           None \<Rightarrow> bulk_loop found u items (s, acc)
         | Some t \<Rightarrow>
             if update_denied u t then bulk_loop found u items (s, acc)
             else bulk_loop found u items
                    (apply_task_updates (item_id item, t) (item_task_update item) s (actor_id u),
                     acc @ [(item_id item, t)])))"
  by (simp add: update_denied_def split: option.splits)

lemma apply_task_updates_keys:
  "map_of (task_rows s) k = Some t
   \<Longrightarrow> fst ` set (task_rows (apply_task_updates (k, t) data s uid)) = fst ` set (task_rows s)"
proof -
  assume "map_of (task_rows s) k = Some t"
  then have "k \<in> fst ` set (task_rows s)"
    by (metis map_of_eq_None_iff option.distinct(1))
  then show ?thesis
    by (auto simp: apply_task_updates_eq dom_update)
qed

lemma map_of_None_keys: "map_of rows k = None \<longleftrightarrow> k \<notin> fst ` set rows"
  by (rule map_of_eq_None_iff)

lemma bulk_loop_refines:
  assumes "\<forall>item \<in> set items. (item_id item \<in> set found) = (item_id item \<in> fst ` set (task_rows s))"
  shows "fst (bulk_loop found u items (s, acc)) = fst (bulkUpdate_spec u items s)
         \<and> map fst (snd (bulk_loop found u items (s, acc)))
             = map fst acc @ snd (bulkUpdate_spec u items s)"
  using assms
proof (induction items arbitrary: s acc)
  case Nil
  show ?case by simp
next
  case (Cons item items)
  from Cons.prems have here: "(item_id item \<in> set found) = (item_id item \<in> fst ` set (task_rows s))"
    and rest: "\<forall>i \<in> set items. (item_id i \<in> set found) = (item_id i \<in> fst ` set (task_rows s))"
    by simp_all
  show ?case
  proof (cases "map_of (task_rows s) (item_id item)")
    case None
    then have "item_id item \<notin> set found" using here by (simp add: map_of_None_keys)
    with None Cons.IH [OF rest, of acc] show ?thesis
      by (simp only: bulk_loop_step bulkUpdate_spec_step) simp
  next
    case (Some t)
    then have inf: "item_id item \<in> set found"
      using here by (metis map_of_None_keys option.distinct(1))
    show ?thesis
    proof (cases "update_denied u t")
      case True
      with Some inf Cons.IH [OF rest, of acc] show ?thesis
        by (simp only: bulk_loop_step bulkUpdate_spec_step) simp
    next
      case False
      let ?s = "apply_task_updates (item_id item, t) (item_task_update item) s (actor_id u)"
      have "\<forall>i \<in> set items. (item_id i \<in> set found) = (item_id i \<in> fst ` set (task_rows ?s))"
        using rest by (simp add: apply_task_updates_keys [OF Some])
      from Cons.IH [OF this, of "acc @ [(item_id item, t)]"] Some inf False show ?thesis
        by (simp only: bulk_loop_step bulkUpdate_spec_step) simp
    qed
  qed
qed

lemma bulkUpdate_spec_keys:
  "fst ` set (task_rows (fst (bulkUpdate_spec u items s))) = fst ` set (task_rows s)
   \<and> set (snd (bulkUpdate_spec u items s)) \<subseteq> fst ` set (task_rows s)
   \<and> subseq (snd (bulkUpdate_spec u items s)) (map item_id items)"
proof (induction items arbitrary: s)
  case Nil
  show ?case by simp
next
  case (Cons item items)
  show ?case
  proof (cases "map_of (task_rows s) (item_id item)")
    case None
    with Cons.IH [of s] show ?thesis
      by (simp only: bulkUpdate_spec_step) auto
  next
    case (Some t)
    then have k: "item_id item \<in> fst ` set (task_rows s)"
      by (metis map_of_None_keys option.distinct(1))
    show ?thesis
    proof (cases "update_denied u t")
      case True
      with Some Cons.IH [of s] show ?thesis
        by (simp only: bulkUpdate_spec_step) auto
    next
      case False
      let ?s = "apply_task_updates (item_id item, t) (item_task_update item) s (actor_id u)"
      from Cons.IH [of ?s] apply_task_updates_keys [OF Some, of "item_task_update item" "actor_id u"]
        Some False k show ?thesis
        by (simp only: bulkUpdate_spec_step) auto
    qed
  qed
qed


lemma read_tasks_Cons:
  "read_tasks s (k # ks) =
     (case map_of (task_rows s) k of None \<Rightarrow> read_tasks s ks | Some t \<Rightarrow> (k, t) # read_tasks s ks)"
  by (simp add: read_tasks_def map_filter_simps split: option.splits)

lemma read_tasks_Nil: "read_tasks s [] = []"
  by (simp add: read_tasks_def map_filter_simps)

lemma read_tasks_keys:
  "set ks \<subseteq> fst ` set (task_rows s) \<Longrightarrow> map fst (read_tasks s ks) = ks"
proof (induction ks)
  case Nil
  show ?case by (simp add: read_tasks_Nil)
next
  case (Cons k ks)
  then have "map_of (task_rows s) k \<noteq> None" by (simp add: map_of_None_keys)
  with Cons show ?case by (auto simp: read_tasks_Cons)
qed

lemma read_tasks_rows:
  "(k, t) \<in> set (read_tasks s ks) \<Longrightarrow> map_of (task_rows s) k = Some t"
  by (induction ks) (auto simp: read_tasks_Nil read_tasks_Cons split: option.splits)

lemma refresh_read_tasks:
  "fst ` set objs \<subseteq> fst ` set (task_rows s)
   \<Longrightarrow> map (db_refresh s) objs = read_tasks s (map fst objs)"
proof (induction objs)
  case Nil
  show ?case by (simp add: read_tasks_Nil)
next
  case (Cons obj objs)
  then have "map_of (task_rows s) (fst obj) \<noteq> None" by (simp add: map_of_None_keys)
  with Cons show ?case by (auto simp: read_tasks_Cons db_refresh_def)
qed

lemma bulkUpdate_spec_filter:
  "fst ` set (task_rows s) = K
   \<Longrightarrow> bulkUpdate_spec u (filter (\<lambda>i. item_id i \<in> K) items) s = bulkUpdate_spec u items s"
proof (induction items arbitrary: s)
  case Nil
  show ?case by simp
next
  case (Cons item items)
  show ?case
  proof (cases "map_of (task_rows s) (item_id item)")
    case None
    then have "item_id item \<notin> K" using Cons.prems by (simp add: map_of_None_keys)
    with None Cons.IH [OF Cons.prems] show ?thesis
      by (simp add: bulkUpdate_spec_step del: bulkUpdate_spec.simps)
  next
    case (Some t)
    then have k: "item_id item \<in> K"
      using Cons.prems by (metis map_of_None_keys option.distinct(1))
    let ?s = "apply_task_updates (item_id item, t) (item_task_update item) s (actor_id u)"
    have "fst ` set (task_rows ?s) = K"
      using apply_task_updates_keys [OF Some] Cons.prems by simp
    from Cons.IH [OF this] Cons.IH [OF Cons.prems] Some k show ?thesis
      by (simp add: bulkUpdate_spec_step del: bulkUpdate_spec.simps)
  qed
qed

lemma bulkUpdate_spec_privileged:
  "actor_role u = ''admin'' \<or> actor_role u = ''manager''
   \<Longrightarrow> snd (bulkUpdate_spec u items s)
       = filter (\<lambda>k. map_of (task_rows s) k \<noteq> None) (map item_id items)"
proof (induction items arbitrary: s)
  case Nil
  show ?case by simp
next
  case (Cons item items)
  have nd: "\<not> update_denied u t" for t
    using Cons.prems by (auto simp: update_denied_def)
  show ?case
  proof (cases "map_of (task_rows s) (item_id item)")
    case None
    with Cons.IH [OF Cons.prems, of s] show ?thesis
      by (simp add: bulkUpdate_spec_step del: bulkUpdate_spec.simps)
  next
    case (Some t)
    let ?s = "apply_task_updates (item_id item, t) (item_task_update item) s (actor_id u)"
    have "(map_of (task_rows ?s) k \<noteq> None) = (map_of (task_rows s) k \<noteq> None)" for k
      using apply_task_updates_keys [OF Some, of "item_task_update item" "actor_id u"]
      by (simp add: map_of_None_keys)
    with Cons.IH [OF Cons.prems, of ?s] Some nd show ?thesis
      by (simp add: bulkUpdate_spec_step del: bulkUpdate_spec.simps)
  qed
qed

lemma bulkUpdate_spec_all_denied:
  "\<forall>(k, t) \<in> set (task_rows s). update_denied u t \<Longrightarrow> bulkUpdate_spec u items s = (s, [])"
proof (induction items)
  case Nil
  show ?case by simp
next
  case (Cons item items)
  show ?case
  proof (cases "map_of (task_rows s) (item_id item)")
    case None
    with Cons show ?thesis
      by (simp add: bulkUpdate_spec_step del: bulkUpdate_spec.simps)
  next
    case (Some t)
    then have "(item_id item, t) \<in> set (task_rows s)" by (rule map_of_SomeD)
    with Cons.prems have "update_denied u t" by auto
    with Some Cons show ?thesis
      by (simp add: bulkUpdate_spec_step del: bulkUpdate_spec.simps)
  qed
qed

lemma bulk_update_tasks_eq:
  "bulk_update_tasks items d u
     = (db_commit (d\<lparr>session_state := fst (bulkUpdate_spec u items (session_state d))\<rparr>),
        read_tasks (fst (bulkUpdate_spec u items (session_state d)))
          (snd (bulkUpdate_spec u items (session_state d))))"
proof -
  let ?found = "filter (\<lambda>k. k \<in> item_id ` set items) (map fst (task_rows (session_state d)))"
  have "\<forall>item \<in> set items.
          (item_id item \<in> set ?found) = (item_id item \<in> fst ` set (task_rows (session_state d)))"
    by auto
  from bulk_loop_refines [OF this, of u "[]"]
  have f: "fst (bulk_loop ?found u items (session_state d, []))
             = fst (bulkUpdate_spec u items (session_state d))"
    and k: "map fst (snd (bulk_loop ?found u items (session_state d, [])))
             = snd (bulkUpdate_spec u items (session_state d))"
    by simp_all
  have "set (snd (bulkUpdate_spec u items (session_state d)))
          \<subseteq> fst ` set (task_rows (fst (bulkUpdate_spec u items (session_state d))))"
    using bulkUpdate_spec_keys [of u items "session_state d"] by simp
  then have "fst ` set (snd (bulk_loop ?found u items (session_state d, [])))
          \<subseteq> fst ` set (task_rows (fst (bulkUpdate_spec u items (session_state d))))"
    by (simp add: k [symmetric])
  from refresh_read_tasks [OF this]
  have r: "map (db_refresh (fst (bulkUpdate_spec u items (session_state d))))
             (snd (bulk_loop ?found u items (session_state d, [])))
           = read_tasks (fst (bulkUpdate_spec u items (session_state d)))
               (snd (bulkUpdate_spec u items (session_state d)))"
    by (simp only: k)
  show ?thesis
    by (simp add: bulk_update_tasks_def Let_def f r)
qed

text \<open>
  C4. \<open>bulk_update_tasks\<close> raises nothing (its result is a state and a list) and does what
  the specification's bulk update does: an item whose id has no task, or whose task the
  caller may not update at that point of the batch, is skipped, and the items after it are
  processed all the same. The returned list has one task for each item that was applied,
  in the order of the items, each as it is stored after the one commit. Items whose id has
  no task can be left out of the batch without any difference. For an admin or a manager
  the returned ids are the ids of the batch that have a task, in order; for a caller who
  may update no task at all the result is empty and the tables are as before.
\<close>

theorem bulk_update_tasks_skips:
  "bulk_update_tasks items d u
     = (db_commit (d\<lparr>session_state := fst (bulkUpdate_spec u items (session_state d))\<rparr>),
        read_tasks (fst (bulkUpdate_spec u items (session_state d)))
          (snd (bulkUpdate_spec u items (session_state d))))
   \<and> map fst (snd (bulk_update_tasks items d u)) = snd (bulkUpdate_spec u items (session_state d))
   \<and> subseq (map fst (snd (bulk_update_tasks items d u))) (map item_id items)
   \<and> (\<forall>(k, t) \<in> set (snd (bulk_update_tasks items d u)).
         map_of (task_rows (session_state (fst (bulk_update_tasks items d u)))) k = Some t)
   \<and> bulk_update_tasks
         (filter (\<lambda>i. map_of (task_rows (session_state d)) (item_id i) \<noteq> None) items) d u
       = bulk_update_tasks items d u
   \<and> commit_log (fst (bulk_update_tasks items d u))
       = commit_log d @ [session_state (fst (bulk_update_tasks items d u))]
   \<and> (actor_role u = ''admin'' \<or> actor_role u = ''manager''
        \<longrightarrow> map fst (snd (bulk_update_tasks items d u))
            = filter (\<lambda>k. map_of (task_rows (session_state d)) k \<noteq> None) (map item_id items))
   \<and> ((\<forall>(k, t) \<in> set (task_rows (session_state d)).
          actor_role u \<noteq> ''admin'' \<and> actor_role u \<noteq> ''manager''
          \<and> actor_id u \<noteq> created_by_id t \<and> assignee_id t \<noteq> Some (actor_id u))
        \<longrightarrow> snd (bulk_update_tasks items d u) = []
          \<and> session_state (fst (bulk_update_tasks items d u)) = session_state d)"
proof -
  let ?R = "bulkUpdate_spec u items (session_state d)"
  note eq = bulk_update_tasks_eq [of items d u]
  note keys = bulkUpdate_spec_keys [of u items "session_state d"]
  have sub: "set (snd ?R) \<subseteq> fst ` set (task_rows (fst ?R))"
    using keys by simp
  have 2: "map fst (snd (bulk_update_tasks items d u)) = snd ?R"
    by (simp add: eq read_tasks_keys [OF sub])
  have 3: "subseq (map fst (snd (bulk_update_tasks items d u))) (map item_id items)"
    using keys by (simp add: 2)
  have 4: "\<forall>(k, t) \<in> set (snd (bulk_update_tasks items d u)).
         map_of (task_rows (session_state (fst (bulk_update_tasks items d u)))) k = Some t"
    by (auto simp: eq db_commit_def dest: read_tasks_rows)
  have "bulkUpdate_spec u
          (filter (\<lambda>i. map_of (task_rows (session_state d)) (item_id i) \<noteq> None) items)
          (session_state d) = ?R"
    using bulkUpdate_spec_filter [OF refl, of u "session_state d" items]
    by (simp add: map_of_None_keys)
  then have 5: "bulk_update_tasks
         (filter (\<lambda>i. map_of (task_rows (session_state d)) (item_id i) \<noteq> None) items) d u
       = bulk_update_tasks items d u"
    by (simp add: bulk_update_tasks_eq)
  have 6: "commit_log (fst (bulk_update_tasks items d u))
       = commit_log d @ [session_state (fst (bulk_update_tasks items d u))]"
    by (simp add: eq db_commit_def)
  have 7: "map fst (snd (bulk_update_tasks items d u))
            = filter (\<lambda>k. map_of (task_rows (session_state d)) k \<noteq> None) (map item_id items)"
    if "actor_role u = ''admin'' \<or> actor_role u = ''manager''"
    using bulkUpdate_spec_privileged [OF that, of items "session_state d"] by (simp add: 2)
  have 8: "snd (bulk_update_tasks items d u) = []
          \<and> session_state (fst (bulk_update_tasks items d u)) = session_state d"
    if a: "\<forall>(k, t) \<in> set (task_rows (session_state d)).
          actor_role u \<noteq> ''admin'' \<and> actor_role u \<noteq> ''manager''
          \<and> actor_id u \<noteq> created_by_id t \<and> assignee_id t \<noteq> Some (actor_id u)"
  proof -
    from a have "\<forall>(k, t) \<in> set (task_rows (session_state d)). update_denied u t"
      by (auto simp: update_denied_def)
    then have "?R = (session_state d, [])" by (rule bulkUpdate_spec_all_denied)
    then show ?thesis by (simp add: eq db_commit_def read_tasks_Nil)
  qed
  from eq 2 3 4 5 6 7 8 show ?thesis by (intro conjI impI) blast+
qed

theorem bulk_update_tasks_skips_witness:
  "snd (bulk_update_tasks demo_items demo_db member_2)
     = [(1, demo_task\<lparr>status := ''done'', priority := ''high''\<rparr>)]
   \<and> subseq (map fst (snd (bulk_update_tasks demo_items demo_db member_2))) (map item_id demo_items)
   \<and> bulk_update_tasks
         (filter (\<lambda>i. map_of (task_rows (session_state demo_db)) (item_id i) \<noteq> None) demo_items)
         demo_db member_2
       = bulk_update_tasks demo_items demo_db member_2
   \<and> snd (bulk_update_tasks demo_items demo_db member_3) = []
   \<and> session_state (fst (bulk_update_tasks demo_items demo_db member_3)) = session_state demo_db"
proof -
  note k = bulk_update_tasks_skips [of demo_items demo_db member_2]
  note k3 = bulk_update_tasks_skips [of demo_items demo_db member_3]
  have v: "snd (bulk_update_tasks demo_items demo_db member_2)
     = [(1, demo_task\<lparr>status := ''done'', priority := ''high''\<rparr>)]"
    by (simp add: bulk_update_tasks_def Let_def demo_items_def demo_db_def demo_store_def
          member_2_def demo_task_def item_task_update_def apply_task_updates_eq task_changes_eq
          scalar_write_def synced_tags_def synced_collaborators_def db_refresh_def)
  have a: "\<forall>(k, t) \<in> set (task_rows (session_state demo_db)).
          actor_role member_3 \<noteq> ''admin'' \<and> actor_role member_3 \<noteq> ''manager''
          \<and> actor_id member_3 \<noteq> created_by_id t \<and> assignee_id t \<noteq> Some (actor_id member_3)"
    by (simp add: demo_db_def demo_store_def demo_task_def member_3_def)
  have 1: "subseq (map fst (snd (bulk_update_tasks demo_items demo_db member_2)))
             (map item_id demo_items)"
    by (rule k [THEN conjunct2, THEN conjunct2, THEN conjunct1])
  have 2: "bulk_update_tasks
         (filter (\<lambda>i. map_of (task_rows (session_state demo_db)) (item_id i) \<noteq> None) demo_items)
         demo_db member_2
       = bulk_update_tasks demo_items demo_db member_2"
    by (rule k [THEN conjunct2, THEN conjunct2, THEN conjunct2, THEN conjunct2, THEN conjunct1])
  have 3: "snd (bulk_update_tasks demo_items demo_db member_3) = []
          \<and> session_state (fst (bulk_update_tasks demo_items demo_db member_3)) = session_state demo_db"
    by (rule k3 [THEN conjunct2, THEN conjunct2, THEN conjunct2, THEN conjunct2, THEN conjunct2,
          THEN conjunct2, THEN conjunct2, THEN mp, OF a])
  from v 1 2 3 show ?thesis by (intro conjI) simp_all
qed

end
